theory Spec2Isabelle
  imports Main
begin

section \<open>JavaScript values\<close>

text \<open>
  The handler of \<^verbatim>\<open>netlify/functions/payment.js\<close> works on whatever \<^verbatim>\<open>JSON.parse\<close>
  returns, so request fields are dynamically typed.  A value is one of the JSON shapes, or
  \<^verbatim>\<open>undefined\<close> (a field the body does not have).  Numbers are the integers; strings are
  lists of code units; an object is the list of its properties, each key once.
\<close>

datatype jsv =
    JUndefined
  | JNull
  | JBool bool
  | JNum int
  | JStr string
  | JArr "jsv list"
  | JObj "(string \<times> jsv) list"

text \<open>\<^verbatim>\<open>!v\<close> is \<open>\<not> truthy v\<close>: undefined, null, false, 0 and the empty string are falsy.\<close>

fun truthy :: "jsv \<Rightarrow> bool" where
  "truthy JUndefined = False"
| "truthy JNull = False"
| "truthy (JBool b) = b"
| "truthy (JNum n) = (n \<noteq> 0)"
| "truthy (JStr s) = (s \<noteq> [])"
| "truthy (JArr xs) = True"
| "truthy (JObj kvs) = True"

text \<open>\<^verbatim>\<open>a || b\<close>\<close>

definition js_or :: "jsv \<Rightarrow> jsv \<Rightarrow> jsv" where
  "js_or a b = (if truthy a then a else b)"

text \<open>
  \<^verbatim>\<open>a === b\<close>.  Primitives are equal when they have the same type and value.  Arrays and
  objects are compared by reference; the two sides of every comparison in the handler come
  from different \<^verbatim>\<open>JSON.parse\<close> calls (or one side is a number), so they are never the same
  reference.
\<close>

fun strict_eq :: "jsv \<Rightarrow> jsv \<Rightarrow> bool" where
  "strict_eq JUndefined JUndefined = True"
| "strict_eq JNull JNull = True"
| "strict_eq (JBool a) (JBool b) = (a = b)"
| "strict_eq (JNum a) (JNum b) = (a = b)"
| "strict_eq (JStr a) (JStr b) = (a = b)"
| "strict_eq _ _ = False"

text \<open>Property read \<^verbatim>\<open>body.k\<close> (destructuring): only an object has the handler's fields.\<close>

fun get_field :: "jsv \<Rightarrow> string \<Rightarrow> jsv" where
  "get_field (JObj kvs) k = (case map_of kvs k of Some v \<Rightarrow> v | None \<Rightarrow> JUndefined)"
| "get_field _ k = JUndefined"

datatype js_error = TypeError | RangeError | SyntaxError

text \<open>\<^verbatim>\<open>xs.slice(-4)\<close> on a string or an array: the last four elements, all of them when
  there are fewer.\<close>

definition slice_last4 :: "'a list \<Rightarrow> 'a list" where
  "slice_last4 xs = drop (length xs - 4) xs"

text \<open>\<^verbatim>\<open>v.slice(-4)\<close> on a value: strings and arrays have the method, on anything else
  (a truthy number, \<^verbatim>\<open>true\<close>, an object) the call is a TypeError.\<close>

fun slice_m4 :: "jsv \<Rightarrow> js_error + jsv" where
  "slice_m4 (JStr s) = Inr (JStr (slice_last4 s))"
| "slice_m4 (JArr xs) = Inr (JArr (slice_last4 xs))"
| "slice_m4 _ = Inl TypeError"

subsection \<open>The engine's conversions\<close>

text \<open>
  Three conversions of the engine are left to a parameter, the \<open>host\<close>: what \<^verbatim>\<open>Date.parse\<close>
  makes of a string that is not the date-only string of a calendar date (date-time
  strings, the engine's legacy formats); the integer that a string converts to when
  \<^verbatim>\<open>slice\<close> takes it as an end index; and the text of a number outside the range in which
  a number is an exact integer printed digit by digit (at or above \<open>2 ^ 53\<close>).
\<close>

datatype integer_or_infinity = Finite int | PlusInfinity | MinusInfinity

record host =
  Date_parse_other :: "string \<Rightarrow> int option"
  StringToIntegerOrInfinity :: "string \<Rightarrow> integer_or_infinity"
  Number_toString_other :: "int \<Rightarrow> string"

definition digit_char :: "int \<Rightarrow> char" where
  "digit_char d = ''0123456789'' ! nat (d mod 10)"

fun show_nat :: "nat \<Rightarrow> string" where
  "show_nat n = (if n < 10 then [digit_char (int n)]
                 else show_nat (n div 10) @ [digit_char (int n)])"

definition show_int :: "int \<Rightarrow> string" where
  "show_int i = (if i < 0 then CHR ''-'' # show_nat (nat (- i)) else show_nat (nat i))"

definition Number_toString :: "host \<Rightarrow> int \<Rightarrow> string" where
  "Number_toString h n =
     (if \<bar>n\<bar> < 9007199254740992 then show_int n else Number_toString_other h n)"

text \<open>An object made by \<^verbatim>\<open>JSON.parse\<close> has the property \<open>k\<close> of its own.\<close>

definition has_own :: "(string \<times> jsv) list \<Rightarrow> string \<Rightarrow> bool" where
  "has_own kvs k = (map_of kvs k \<noteq> None)"

text \<open>
  Conversion to a string, as a template literal \<^verbatim>\<open>`${v}`\<close> does it.  An array is its elements
  joined with commas, where \<^verbatim>\<open>null\<close> and \<^verbatim>\<open>undefined\<close> elements are empty.  An object is
  converted by its \<^verbatim>\<open>toString\<close>: the inherited one gives \<^verbatim>\<open>[object Object]\<close>, but a property
  \<^verbatim>\<open>toString\<close> of its own, which in a parsed JSON value is never a function, hides it, and
  the conversion is a TypeError.  The conversion of an array throws when that of an element
  does.
\<close>

fun ToString :: "host \<Rightarrow> jsv \<Rightarrow> js_error + string"
  and join_elems :: "host \<Rightarrow> jsv list \<Rightarrow> js_error + string" where
  "ToString h JUndefined = Inr ''undefined''"
| "ToString h JNull = Inr ''null''"
| "ToString h (JBool b) = Inr (if b then ''true'' else ''false'')"
| "ToString h (JNum n) = Inr (Number_toString h n)"
| "ToString h (JStr s) = Inr s"
| "ToString h (JArr xs) = join_elems h xs"
| "ToString h (JObj kvs) =
     (if has_own kvs ''toString'' then Inl TypeError else Inr ''[object Object]'')"
| "join_elems h [] = Inr []"
| "join_elems h (x # xs) =
     (case (if x = JUndefined \<or> x = JNull then Inr [] else ToString h x) of
        Inl err \<Rightarrow> Inl err
      | Inr s \<Rightarrow>
          if xs = [] then Inr s
          else (case join_elems h xs of
                  Inl err \<Rightarrow> Inl err
                | Inr r \<Rightarrow> Inr (s @ CHR '','' # r)))"

text \<open>
  Conversion to a primitive where a number is wanted (\<^verbatim>\<open>new Date(v)\<close>, the end index of
  \<^verbatim>\<open>slice\<close>): for an object or an array the inherited \<^verbatim>\<open>valueOf\<close> returns the value itself, so
  the result is again the string that \<^verbatim>\<open>toString\<close> gives, or the TypeError.
\<close>

definition ToPrimitive_string :: "host \<Rightarrow> jsv \<Rightarrow> js_error + string" where
  "ToPrimitive_string h v = ToString h v"

section \<open>The Date object\<close>

text \<open>
  \<^verbatim>\<open>Date\<close> is the engine's, not the repository's; it is modelled after ECMA-262, section
  "Date Objects".  A time value is a number of milliseconds since 1970-01-01T00:00:00Z, or
  NaN (an invalid date), here \<open>None\<close>.  \<^verbatim>\<open>getMonth\<close> and \<^verbatim>\<open>setMonth\<close> work in local time and
  \<^verbatim>\<open>toISOString\<close> in UTC; the function runs on Netlify's runtime, whose time zone is UTC, so
  local time is UTC here.
\<close>

definition msPerDay :: int where
  "msPerDay = 86400000"

definition Day :: "int \<Rightarrow> int" where
  "Day t = t div msPerDay"

definition TimeWithinDay :: "int \<Rightarrow> int" where
  "TimeWithinDay t = t mod msPerDay"

definition DaysInYear :: "int \<Rightarrow> int" where
  "DaysInYear y =
     (if y mod 4 \<noteq> 0 then 365 else if y mod 100 \<noteq> 0 then 366
      else if y mod 400 \<noteq> 0 then 365 else 366)"

definition DayFromYear :: "int \<Rightarrow> int" where
  "DayFromYear y =
     365 * (y - 1970) + (y - 1969) div 4 - (y - 1901) div 100 + (y - 1601) div 400"

text \<open>
  \<open>YearFromDay n\<close> is the largest year \<open>y\<close> with \<open>DayFromYear y \<le> n\<close>: the search starts at
  a year that is not too small (a year has 365 or 366 days) and walks down.
\<close>

function year_search :: "int \<Rightarrow> int \<Rightarrow> int" where
  "year_search y n = (if DayFromYear y \<le> n then y else year_search (y - 1) n)"
  by pat_completeness auto
termination
proof (relation "measure (\<lambda>(y, n). nat (DayFromYear y - n))")
  show "wf (measure (\<lambda>(y, n). nat (DayFromYear y - n)))"
    by simp
next
  fix y n :: int
  assume above: "\<not> DayFromYear y \<le> n"
  have a: "(y - 1 - 1969) div 4 \<le> (y - 1969) div 4"
    by (rule zdiv_mono1) simp_all
  have c: "(y - 1 - 1601) div 400 \<le> (y - 1601) div 400"
    by (rule zdiv_mono1) simp_all
  have "(y - 1901) div 100 \<le> (y - 1 - 1901 + 100) div 100"
    by (rule zdiv_mono1) simp_all
  then have b: "(y - 1901) div 100 \<le> (y - 1 - 1901) div 100 + 1"
    by simp
  define a0 a1 b0 b1 c0 c1 where
    "a0 = (y - 1 - 1969) div 4" and "a1 = (y - 1969) div 4" and
    "b0 = (y - 1 - 1901) div 100" and "b1 = (y - 1901) div 100" and
    "c0 = (y - 1 - 1601) div 400" and "c1 = (y - 1601) div 400"
  have le: "a0 \<le> a1" "b1 \<le> b0 + 1" "c0 \<le> c1"
    using a b c by (simp_all add: a0_def a1_def b0_def b1_def c0_def c1_def)
  have "DayFromYear (y - 1) = 365 * (y - 1 - 1970) + a0 - b0 + c0"
    by (simp add: DayFromYear_def a0_def b0_def c0_def)
  moreover have "DayFromYear y = 365 * (y - 1970) + a1 - b1 + c1"
    by (simp add: DayFromYear_def a1_def b1_def c1_def)
  moreover have "365 * (y - 1 - 1970) = 365 * (y - 1970) - 365"
    by simp
  ultimately have "DayFromYear (y - 1) < DayFromYear y"
    using le by linarith
  with above show "((y - 1, n), (y, n)) \<in> measure (\<lambda>(y, n). nat (DayFromYear y - n))"
    by simp
qed

declare year_search.simps [simp del]

definition YearFromDay :: "int \<Rightarrow> int" where
  "YearFromDay n =
     year_search (if 0 \<le> n then 1970 + n div 365 else 1970 + n div 366) n"

definition YearFromTime :: "int \<Rightarrow> int" where
  "YearFromTime t = YearFromDay (Day t)"

definition InLeapYear :: "int \<Rightarrow> int" where
  "InLeapYear t = (if DaysInYear (YearFromTime t) = 366 then 1 else 0)"

definition DayWithinYear :: "int \<Rightarrow> int" where
  "DayWithinYear t = Day t - DayFromYear (YearFromTime t)"

text \<open>The number of days of a year before its month \<open>m\<close> (0 is January), \<open>leap\<close> being 1
  in a leap year and 0 otherwise.\<close>

definition month_start :: "int \<Rightarrow> int \<Rightarrow> int" where
  "month_start leap m =
     (if m = 0 then 0 else if m = 1 then 31 else if m = 2 then 59 + leap
      else if m = 3 then 90 + leap else if m = 4 then 120 + leap
      else if m = 5 then 151 + leap else if m = 6 then 181 + leap
      else if m = 7 then 212 + leap else if m = 8 then 243 + leap
      else if m = 9 then 273 + leap else if m = 10 then 304 + leap
      else 334 + leap)"

definition MonthFromTime :: "int \<Rightarrow> int" where
  "MonthFromTime t =
     (let d = DayWithinYear t; leap = InLeapYear t in
      if d < 31 then 0 else if d < 59 + leap then 1 else if d < 90 + leap then 2
      else if d < 120 + leap then 3 else if d < 151 + leap then 4
      else if d < 181 + leap then 5 else if d < 212 + leap then 6
      else if d < 243 + leap then 7 else if d < 273 + leap then 8
      else if d < 304 + leap then 9 else if d < 334 + leap then 10 else 11)"

definition DateFromTime :: "int \<Rightarrow> int" where
  "DateFromTime t = DayWithinYear t - month_start (InLeapYear t) (MonthFromTime t) + 1"

text \<open>\<open>MakeDay year month date\<close>: the day number of the \<open>date\<close>-th day counted from the first
  of the month; neither \<open>month\<close> nor \<open>date\<close> has to be in range, which is how \<^verbatim>\<open>setMonth\<close>
  carries into the next year and past the end of a month.\<close>

definition MakeDay :: "int \<Rightarrow> int \<Rightarrow> int \<Rightarrow> int" where
  "MakeDay year month date =
     (let ym = year + month div 12; mn = month mod 12 in
      DayFromYear ym + month_start (if DaysInYear ym = 366 then 1 else 0) mn + date - 1)"

definition MakeDate :: "int \<Rightarrow> int \<Rightarrow> int" where
  "MakeDate day time = day * msPerDay + time"

definition TimeClip :: "int \<Rightarrow> int option" where
  "TimeClip t = (if \<bar>t\<bar> \<le> 8640000000000000 then Some t else None)"

text \<open>\<^verbatim>\<open>d.getMonth()\<close> and \<^verbatim>\<open>d.setMonth(m)\<close> on the time value of \<open>d\<close>; an invalid date stays
  invalid.\<close>

definition getMonth :: "int option \<Rightarrow> int option" where
  "getMonth d = map_option MonthFromTime d"

definition setMonth :: "int option \<Rightarrow> int option \<Rightarrow> int option" where
  "setMonth d m =
     (case (d, m) of
        (Some t, Some mo) \<Rightarrow>
          TimeClip (MakeDate (MakeDay (YearFromTime t) mo (DateFromTime t)) (TimeWithinDay t))
      | _ \<Rightarrow> None)"

subsection \<open>Date strings\<close>

definition pad2 :: "int \<Rightarrow> string" where
  "pad2 n = [digit_char (n div 10), digit_char n]"

definition pad3 :: "int \<Rightarrow> string" where
  "pad3 n = [digit_char (n div 100), digit_char (n div 10), digit_char n]"

definition pad4 :: "int \<Rightarrow> string" where
  "pad4 n = [digit_char (n div 1000), digit_char (n div 100), digit_char (n div 10),
             digit_char n]"

definition pad6 :: "int \<Rightarrow> string" where
  "pad6 n = [digit_char (n div 100000), digit_char (n div 10000), digit_char (n div 1000),
             digit_char (n div 100), digit_char (n div 10), digit_char n]"

text \<open>The year of the ISO format: four digits from 0 to 9999, otherwise a sign and six
  digits.\<close>

definition iso_year :: "int \<Rightarrow> string" where
  "iso_year y =
     (if 0 \<le> y \<and> y \<le> 9999 then pad4 y
      else (if y < 0 then CHR ''-'' else CHR ''+'') # pad6 \<bar>y\<bar>)"

text \<open>\<^verbatim>\<open>toISOString()\<close> of a valid time value: \<^verbatim>\<open>YYYY-MM-DDTHH:mm:ss.sssZ\<close>.\<close>

definition toISOString :: "int \<Rightarrow> string" where
  "toISOString t =
     iso_year (YearFromTime t) @ ''-'' @ pad2 (MonthFromTime t + 1) @ ''-'' @
     pad2 (DateFromTime t) @ ''T'' @
     pad2 (TimeWithinDay t div 3600000) @ '':'' @
     pad2 (TimeWithinDay t div 60000 mod 60) @ '':'' @
     pad2 (TimeWithinDay t div 1000 mod 60) @ ''.'' @
     pad3 (TimeWithinDay t mod 1000) @ ''Z''"

text \<open>\<^verbatim>\<open>s.split('T')[0]\<close>: the part of \<open>s\<close> before its first \<^verbatim>\<open>T\<close>.\<close>

definition split_T_0 :: "string \<Rightarrow> string" where
  "split_T_0 s = takeWhile (\<lambda>c. c \<noteq> CHR ''T'') s"

definition digit_val :: "char \<Rightarrow> int option" where
  "digit_val c = map_of (zip ''0123456789'' [0, 1, 2, 3, 4, 5, 6, 7, 8, 9]) c"

fun number_of_digits :: "int \<Rightarrow> char list \<Rightarrow> int option" where
  "number_of_digits acc [] = Some acc"
| "number_of_digits acc (c # cs) =
     (case digit_val c of None \<Rightarrow> None | Some d \<Rightarrow> number_of_digits (10 * acc + d) cs)"

text \<open>The days of month \<open>m\<close> (1 is January) of year \<open>y\<close>.\<close>

definition days_in_month :: "int \<Rightarrow> int \<Rightarrow> int" where
  "days_in_month y m =
     (if m = 2 then (if DaysInYear y = 366 then 29 else 28)
      else if m = 4 \<or> m = 6 \<or> m = 9 \<or> m = 11 then 30 else 31)"

definition valid_date :: "int \<times> int \<times> int \<Rightarrow> bool" where
  "valid_date ymd =
     (case ymd of (y, m, d) \<Rightarrow> 1 \<le> m \<and> m \<le> 12 \<and> 1 \<le> d \<and> d \<le> days_in_month y m)"

text \<open>The date-only form \<^verbatim>\<open>YYYY-MM-DD\<close> of the ISO format, read as year, month and day.\<close>

fun date_only :: "string \<Rightarrow> (int \<times> int \<times> int) option" where
  "date_only [y1, y2, y3, y4, s1, m1, m2, s2, d1, d2] =
     (if s1 = CHR ''-'' \<and> s2 = CHR ''-'' then
        (case (number_of_digits 0 [y1, y2, y3, y4], number_of_digits 0 [m1, m2],
               number_of_digits 0 [d1, d2]) of
           (Some y, Some m, Some d) \<Rightarrow> Some (y, m, d)
         | _ \<Rightarrow> None)
      else None)"
| "date_only _ = None"

text \<open>\<^verbatim>\<open>Date.parse(s)\<close>: a date-only string of a calendar date is midnight UTC of that day;
  every other string is the host's.\<close>

definition Date_parse :: "host \<Rightarrow> string \<Rightarrow> int option" where
  "Date_parse h s =
     (case date_only s of
        Some (y, m, d) \<Rightarrow>
          if valid_date (y, m, d) then TimeClip (MakeDate (MakeDay y (m - 1) d) 0)
          else Date_parse_other h s
      | None \<Rightarrow> Date_parse_other h s)"

text \<open>\<^verbatim>\<open>new Date(v)\<close>: a number is the time value itself, a string is parsed, an array or an
  object is converted to a string first, which can throw, and that string is parsed.\<close>

definition new_Date :: "host \<Rightarrow> jsv \<Rightarrow> js_error + int option" where
  "new_Date h v =
     (case v of
        JNum n \<Rightarrow> Inr (TimeClip n)
      | JBool b \<Rightarrow> Inr (Some (if b then 1 else 0))
      | JNull \<Rightarrow> Inr (Some 0)
      | JUndefined \<Rightarrow> Inr None
      | JStr s \<Rightarrow> Inr (Date_parse h s)
      | _ \<Rightarrow>
          (case ToPrimitive_string h v of
             Inl err \<Rightarrow> Inl err
           | Inr s \<Rightarrow> Inr (Date_parse h s)))"

text \<open>
  Lines 146 to 148 and 159 of the handler: from \<^verbatim>\<open>start_date\<close> to \<^verbatim>\<open>next_payment_date\<close>,
  \<^verbatim>\<open>const start = new Date(start_date);\<close>
  \<^verbatim>\<open>const nextPaymentDate = new Date(start);\<close>
  \<^verbatim>\<open>nextPaymentDate.setMonth(nextPaymentDate.getMonth() + 1);\<close>
  \<^verbatim>\<open>nextPaymentDate.toISOString().split('T')[0]\<close>
  \<open>advance_month\<close> is the third of these lines, on the time value of the date.  The first
  line can throw a TypeError (the conversion of an object); on an invalid date
  \<^verbatim>\<open>toISOString\<close> throws a RangeError.
\<close>

definition advance_month :: "int option \<Rightarrow> int option" where
  "advance_month d = setMonth d (map_option (\<lambda>m. m + 1) (getMonth d))"

definition nextPaymentDate :: "host \<Rightarrow> jsv \<Rightarrow> js_error + int option" where
  "nextPaymentDate h start_date =
     (case new_Date h start_date of
        Inl err \<Rightarrow> Inl err
      | Inr start \<Rightarrow> Inr (advance_month start))"

definition next_payment_date_of :: "host \<Rightarrow> jsv \<Rightarrow> js_error + string" where
  "next_payment_date_of h start_date =
     (case nextPaymentDate h start_date of
        Inl err \<Rightarrow> Inl err
      | Inr None \<Rightarrow> Inl RangeError
      | Inr (Some t) \<Rightarrow> Inr (split_T_0 (toISOString t)))"

section \<open>The in-memory store\<close>

text \<open>
  The module keeps four arrays and a counter (lines 9 to 13).  An object literal of the
  handler is a record; a property an object does not have reads as \<^verbatim>\<open>undefined\<close>, so the
  two shapes of a payment method share one record whose unused fields are \<open>JUndefined\<close>.
\<close>

definition MONTHLY_AMOUNT :: int where
  "MONTHLY_AMOUNT = 3500"

record customer =
  c_id :: int
  parent_name :: jsv
  phone :: jsv
  email :: jsv
  child_name :: jsv
  child_age :: jsv
  allergies :: jsv
  c_notes :: jsv
  c_created_at :: string
  c_status :: string

record payment_method =
  m_id :: int
  m_customer_id :: jsv
  m_payment_type :: string
  card_number_last4 :: jsv
  card_holder_name :: jsv
  card_expiry_month :: jsv
  card_expiry_year :: jsv
  bank_code :: jsv
  branch_code :: jsv
  account_number :: jsv
  account_holder_name :: jsv
  is_default :: bool
  is_active :: bool
  m_created_at :: string

record recurring =
  r_id :: int
  r_customer_id :: jsv
  r_payment_method_id :: jsv
  r_amount :: jsv
  r_currency :: string
  frequency :: jsv
  start_date :: jsv
  end_date :: jsv
  next_payment_date :: string
  r_status :: string
  r_created_at :: string

text \<open>The description of a payment is a fixed Hebrew label ("monthly payment") followed by
  \<^verbatim>\<open>nextPaymentDate.toLocaleDateString('he-IL')\<close>; the record keeps the time value that is
  rendered.\<close>

datatype description = MonthlyPaymentLabel int

record payment =
  p_id :: int
  p_customer_id :: jsv
  p_payment_method_id :: jsv
  p_amount :: jsv
  p_currency :: string
  p_payment_type :: string
  p_status :: string
  due_date :: jsv
  description :: description
  p_created_at :: string

record state =
  customers :: "customer list"
  paymentMethods :: "payment_method list"
  recurringPayments :: "recurring list"
  payments :: "payment list"
  idCounter :: int

definition init :: state where
  "init = \<lparr>customers = [], paymentMethods = [], recurringPayments = [], payments = [],
            idCounter = 1\<rparr>"

section \<open>Requests and responses\<close>

text \<open>\<^verbatim>\<open>event.body\<close> is absent (or empty), or a text that \<^verbatim>\<open>JSON.parse\<close> rejects, or the
  text of a JSON value.\<close>

datatype body_in = NoBody | Malformed | Json jsv

text \<open>An event carries what the handler reads of it, and the two readings of the clock
  that \<^verbatim>\<open>new Date()\<close> takes while the request is handled.\<close>

record event =
  httpMethod :: string
  path :: string
  body :: body_in
  now :: int
  now2 :: int

text \<open>A payment method as \<^verbatim>\<open>/payment-methods\<close> shows it: the stored object with
  \<^verbatim>\<open>account_number\<close> overwritten, and \<^verbatim>\<open>card_number\<close> added.\<close>

record method_view =
  shown :: payment_method
  card_number :: jsv

text \<open>The bodies before \<^verbatim>\<open>JSON.stringify\<close>; the message texts are fixed by the kind of the
  body and its fields.\<close>

datatype response_body =
    EmptyBody
  | Failure string
  | CustomerRegistered int
  | ConfigInfo int string "string list" "string list"
  | CardAdded int jsv
  | StandingOrderAdded int
  | RecurringCreated int jsv string
  | PaymentMethods "method_view list"
  | PaymentHistory "payment list"
  | RecurringCancelled
  | NotFound
  | ServerError js_error

record response =
  statusCode :: nat
  rbody :: response_body

type_synonym outcome = "(js_error + response) \<times> state"

definition ok :: "response_body \<Rightarrow> js_error + response" where
  "ok b = Inr \<lparr>statusCode = 200, rbody = b\<rparr>"

definition bad_request :: "string \<Rightarrow> js_error + response" where
  "bad_request msg = Inr \<lparr>statusCode = 400, rbody = Failure msg\<rparr>"

text \<open>Destructuring \<^verbatim>\<open>const { ... } = body\<close> throws a TypeError on \<^verbatim>\<open>null\<close>.\<close>

definition destructurable :: "jsv \<Rightarrow> bool" where
  "destructurable b = (b \<noteq> JNull \<and> b \<noteq> JUndefined)"

section \<open>The handler\<close>

text \<open>\<^verbatim>\<open>/register\<close>, lines 33 to 55.\<close>

definition register :: "event \<Rightarrow> jsv \<Rightarrow> state \<Rightarrow> outcome" where
  "register e b s =
     (if \<not> destructurable b then (Inl TypeError, s)
      else if \<not> truthy (get_field b ''parent_name'') \<or> \<not> truthy (get_field b ''phone'') \<or>
              \<not> truthy (get_field b ''child_name'')
      then (bad_request ''Missing required fields'', s)
      else
        let customer =
          \<lparr>c_id = idCounter s,
           parent_name = get_field b ''parent_name'',
           phone = get_field b ''phone'',
           email = js_or (get_field b ''email'') (JStr []),
           child_name = get_field b ''child_name'',
           child_age = js_or (get_field b ''child_age'') (JStr []),
           allergies = js_or (get_field b ''allergies'') (JStr []),
           c_notes = js_or (get_field b ''notes'') (JStr []),
           c_created_at = toISOString (now e),
           c_status = ''active''\<rparr>
        in (ok (CustomerRegistered (c_id customer)),
            s\<lparr>customers := customers s @ [customer], idCounter := idCounter s + 1\<rparr>))"

text \<open>\<^verbatim>\<open>/config\<close>, lines 57 to 68.\<close>

definition config :: "state \<Rightarrow> outcome" where
  "config s =
     (ok (ConfigInfo MONTHLY_AMOUNT ''ILS'' [''credit_card'', ''standing_order''] [''monthly'']),
      s)"

text \<open>\<^verbatim>\<open>/add-credit-card\<close>, lines 70 to 104.  \<^verbatim>\<open>cvv\<close> is read from the body and not used.
  \<^verbatim>\<open>card_number.slice(-4)\<close> comes before \<^verbatim>\<open>idCounter++\<close>.\<close>

definition add_credit_card :: "event \<Rightarrow> jsv \<Rightarrow> state \<Rightarrow> outcome" where
  "add_credit_card e b s =
     (if \<not> destructurable b then (Inl TypeError, s)
      else
        let customer_id = get_field b ''customer_id'';
            card_number = get_field b ''card_number'';
            holder = get_field b ''card_holder_name'';
            expiry_month = get_field b ''expiry_month'';
            expiry_year = get_field b ''expiry_year'';
            cvv = get_field b ''cvv''
        in
        if \<not> truthy customer_id \<or> \<not> truthy card_number \<or> \<not> truthy holder \<or>
           \<not> truthy expiry_month \<or> \<not> truthy expiry_year
        then (bad_request ''Missing required fields'', s)
        else
          (case slice_m4 card_number of
             Inl err \<Rightarrow> (Inl err, s)
           | Inr last4 \<Rightarrow>
               let method =
                 \<lparr>m_id = idCounter s,
                  m_customer_id = customer_id,
                  m_payment_type = ''credit_card'',
                  card_number_last4 = last4,
                  card_holder_name = holder,
                  card_expiry_month = expiry_month,
                  card_expiry_year = expiry_year,
                  bank_code = JUndefined,
                  branch_code = JUndefined,
                  account_number = JUndefined,
                  account_holder_name = JUndefined,
                  is_default = True,
                  is_active = True,
                  m_created_at = toISOString (now e)\<rparr>
               in (ok (CardAdded (m_id method) last4),
                   s\<lparr>paymentMethods := paymentMethods s @ [method],
                     idCounter := idCounter s + 1\<rparr>)))"

text \<open>\<^verbatim>\<open>/add-standing-order\<close>, lines 106 to 136.\<close>

definition add_standing_order :: "event \<Rightarrow> jsv \<Rightarrow> state \<Rightarrow> outcome" where
  "add_standing_order e b s =
     (if \<not> destructurable b then (Inl TypeError, s)
      else
        let customer_id = get_field b ''customer_id'';
            bank = get_field b ''bank_code'';
            branch = get_field b ''branch_code'';
            account = get_field b ''account_number'';
            holder = get_field b ''account_holder_name''
        in
        if \<not> truthy customer_id \<or> \<not> truthy bank \<or> \<not> truthy branch \<or>
           \<not> truthy account \<or> \<not> truthy holder
        then (bad_request ''Missing required fields'', s)
        else
          let method =
            \<lparr>m_id = idCounter s,
             m_customer_id = customer_id,
             m_payment_type = ''standing_order'',
             card_number_last4 = JUndefined,
             card_holder_name = JUndefined,
             card_expiry_month = JUndefined,
             card_expiry_year = JUndefined,
             bank_code = bank,
             branch_code = branch,
             account_number = account,
             account_holder_name = holder,
             is_default = True,
             is_active = True,
             m_created_at = toISOString (now e)\<rparr>
          in (ok (StandingOrderAdded (m_id method)),
              s\<lparr>paymentMethods := paymentMethods s @ [method],
                idCounter := idCounter s + 1\<rparr>))"

text \<open>
  \<^verbatim>\<open>/create-recurring\<close>, lines 138 to 190.  In the object literal of \<^verbatim>\<open>recurring\<close>,
  \<^verbatim>\<open>idCounter++\<close> is evaluated before \<^verbatim>\<open>toISOString()\<close>: when the date is invalid the
  RangeError leaves the counter incremented and nothing pushed.  A TypeError of
  \<^verbatim>\<open>new Date(start_date)\<close> at line 146 comes before the counter is touched.  The template
  literal of the message at line 187 is evaluated after both pushes: when the conversion
  of the amount throws, the agreement and the payment record stay in the store and the
  answer is the 500 of the \<^verbatim>\<open>catch\<close>.
\<close>

definition create_recurring :: "host \<Rightarrow> event \<Rightarrow> jsv \<Rightarrow> state \<Rightarrow> outcome" where
  "create_recurring h e b s =
     (if \<not> destructurable b then (Inl TypeError, s)
      else
        let customer_id = get_field b ''customer_id'';
            payment_method_id = get_field b ''payment_method_id'';
            amount = get_field b ''amount'';
            start = get_field b ''start_date''
        in
        if \<not> truthy customer_id \<or> \<not> truthy payment_method_id \<or> \<not> truthy start
        then (bad_request ''Missing required fields'', s)
        else
          (case nextPaymentDate h start of
             Inl err \<Rightarrow> (Inl err, s)
           | Inr None \<Rightarrow> (Inl RangeError, s\<lparr>idCounter := idCounter s + 1\<rparr>)
           | Inr (Some t) \<Rightarrow>
               let recurring =
                     \<lparr>r_id = idCounter s,
                      r_customer_id = customer_id,
                      r_payment_method_id = payment_method_id,
                      r_amount = js_or amount (JNum MONTHLY_AMOUNT),
                      r_currency = ''ILS'',
                      frequency = js_or (get_field b ''frequency'') (JStr ''monthly''),
                      start_date = start,
                      end_date = js_or (get_field b ''end_date'') JNull,
                      next_payment_date = split_T_0 (toISOString t),
                      r_status = ''active'',
                      r_created_at = toISOString (now e)\<rparr>;
                   payment =
                     \<lparr>p_id = idCounter s + 1,
                      p_customer_id = customer_id,
                      p_payment_method_id = payment_method_id,
                      p_amount = js_or amount (JNum MONTHLY_AMOUNT),
                      p_currency = ''ILS'',
                      p_payment_type = ''recurring'',
                      p_status = ''pending'',
                      due_date = start,
                      description = MonthlyPaymentLabel t,
                      p_created_at = toISOString (now2 e)\<rparr>;
                   s' = s\<lparr>recurringPayments := recurringPayments s @ [recurring],
                          payments := payments s @ [payment],
                          idCounter := idCounter s + 2\<rparr>
               in (case ToString h (js_or amount (JNum MONTHLY_AMOUNT)) of
                     Inl err \<Rightarrow> (Inl err, s')
                   | Inr shown_amount \<Rightarrow>
                       (ok (RecurringCreated (r_id recurring)
                              (js_or amount (JNum MONTHLY_AMOUNT))
                              (''Recurring payment of '' @ shown_amount @
                               '' ILS created successfully'')),
                        s'))))"

text \<open>\<^verbatim>\<open>/payment-methods\<close>, lines 192 to 213.  The two masks are template literals, made in
  the order of the object literal: first that of the card number (line 208), then that of
  the account number (line 209), with \<^verbatim>\<open>m.account_number.slice(-4)\<close>, a TypeError on a stored
  value without the method.  Either conversion to a string can throw.\<close>

definition masked :: "host \<Rightarrow> jsv \<Rightarrow> js_error + jsv" where
  "masked h v =
     (case ToString h v of Inl err \<Rightarrow> Inl err | Inr t \<Rightarrow> Inr (JStr (''****'' @ t)))"

definition view_of :: "host \<Rightarrow> payment_method \<Rightarrow> js_error + method_view" where
  "view_of h m =
     (case (if truthy (card_number_last4 m) then masked h (card_number_last4 m)
            else Inr JUndefined) of
        Inl err \<Rightarrow> Inl err
      | Inr c \<Rightarrow>
          if truthy (account_number m) then
            (case slice_m4 (account_number m) of
               Inl err \<Rightarrow> Inl err
             | Inr v \<Rightarrow>
                 (case masked h v of
                    Inl err \<Rightarrow> Inl err
                  | Inr a \<Rightarrow> Inr \<lparr>shown = m\<lparr>account_number := a\<rparr>, card_number = c\<rparr>))
          else Inr \<lparr>shown = m\<lparr>account_number := JUndefined\<rparr>, card_number = c\<rparr>)"

text \<open>\<^verbatim>\<open>xs.map(f)\<close> with a callback that may throw: the first exception ends the loop.\<close>

fun map_throwing :: "('a \<Rightarrow> js_error + 'b) \<Rightarrow> 'a list \<Rightarrow> js_error + 'b list" where
  "map_throwing f [] = Inr []"
| "map_throwing f (x # xs) =
     (case f x of
        Inl err \<Rightarrow> Inl err
      | Inr y \<Rightarrow> (case map_throwing f xs of Inl err \<Rightarrow> Inl err | Inr ys \<Rightarrow> Inr (y # ys)))"

definition payment_methods :: "host \<Rightarrow> jsv \<Rightarrow> state \<Rightarrow> outcome" where
  "payment_methods h b s =
     (if \<not> destructurable b then (Inl TypeError, s)
      else
        let customer_id = get_field b ''customer_id'' in
        if \<not> truthy customer_id then (bad_request ''customer_id required'', s)
        else
          let methods = filter (\<lambda>m. strict_eq (m_customer_id m) customer_id \<and> is_active m)
                          (paymentMethods s)
          in (case map_throwing (view_of h) methods of
                Inl err \<Rightarrow> (Inl err, s)
              | Inr views \<Rightarrow> (ok (PaymentMethods views), s)))"

text \<open>The conversion of an end index to an integer.  An array or an object is converted to
  a string first, which can throw; the string of an object without a \<^verbatim>\<open>toString\<close> of its own
  is \<^verbatim>\<open>[object Object]\<close>, not a number, and counts as 0.\<close>

definition ToIntegerOrInfinity :: "host \<Rightarrow> jsv \<Rightarrow> js_error + integer_or_infinity" where
  "ToIntegerOrInfinity h v =
     (case v of
        JNum n \<Rightarrow> Inr (Finite n)
      | JBool b \<Rightarrow> Inr (Finite (if b then 1 else 0))
      | JNull \<Rightarrow> Inr (Finite 0)
      | JUndefined \<Rightarrow> Inr (Finite 0)
      | JStr s \<Rightarrow> Inr (StringToIntegerOrInfinity h s)
      | JArr xs \<Rightarrow>
          (case ToPrimitive_string h v of
             Inl err \<Rightarrow> Inl err
           | Inr s \<Rightarrow> Inr (StringToIntegerOrInfinity h s))
      | JObj kvs \<Rightarrow>
          (case ToPrimitive_string h v of
             Inl err \<Rightarrow> Inl err
           | Inr s \<Rightarrow> Inr (Finite 0)))"

text \<open>\<^verbatim>\<open>xs.slice(0, end)\<close>: a negative end counts from the end of the array.\<close>

definition slice_0 :: "host \<Rightarrow> 'a list \<Rightarrow> jsv \<Rightarrow> js_error + 'a list" where
  "slice_0 h xs end =
     (if end = JUndefined then Inr xs
      else
        (case ToIntegerOrInfinity h end of
           Inl err \<Rightarrow> Inl err
         | Inr MinusInfinity \<Rightarrow> Inr []
         | Inr PlusInfinity \<Rightarrow> Inr xs
         | Inr (Finite k) \<Rightarrow>
             if k < 0 then Inr (take (nat (max (int (length xs) + k) 0)) xs)
             else Inr (take (nat (min k (int (length xs)))) xs)))"

text \<open>\<^verbatim>\<open>/payment-history\<close>, lines 215 to 232.  The conversion of the limit at line 222 can
  throw; nothing has been assigned then.\<close>

definition payment_history :: "host \<Rightarrow> jsv \<Rightarrow> state \<Rightarrow> outcome" where
  "payment_history h b s =
     (if \<not> destructurable b then (Inl TypeError, s)
      else
        let customer_id = get_field b ''customer_id'';
            limit = get_field b ''limit''
        in
        if \<not> truthy customer_id then (bad_request ''customer_id required'', s)
        else
          (case slice_0 h (filter (\<lambda>p. strict_eq (p_customer_id p) customer_id) (payments s))
                  (js_or limit (JNum 12)) of
             Inl err \<Rightarrow> (Inl err, s)
           | Inr history \<Rightarrow> (ok (PaymentHistory history), s)))"

text \<open>\<^verbatim>\<open>/cancel-recurring\<close>, lines 234 to 247: \<^verbatim>\<open>find\<close> returns the first agreement with the
  id, and the assignment changes that element of the array in place.\<close>

fun cancel_found :: "jsv \<Rightarrow> recurring list \<Rightarrow> recurring list" where
  "cancel_found rid [] = []"
| "cancel_found rid (r # rs) =
     (if strict_eq (JNum (r_id r)) rid then r\<lparr>r_status := ''cancelled''\<rparr> # rs
      else r # cancel_found rid rs)"

definition cancel_recurring :: "jsv \<Rightarrow> state \<Rightarrow> outcome" where
  "cancel_recurring b s =
     (if \<not> destructurable b then (Inl TypeError, s)
      else
        let recurring_id = get_field b ''recurring_id'' in
        if \<not> truthy recurring_id then (bad_request ''recurring_id required'', s)
        else (ok RecurringCancelled,
              s\<lparr>recurringPayments := cancel_found recurring_id (recurringPayments s)\<rparr>))"

text \<open>\<^verbatim>\<open>s.replace(pat, '')\<close> with a string pattern removes the first occurrence of \<open>pat\<close>.\<close>

fun remove_first :: "string \<Rightarrow> string \<Rightarrow> string" where
  "remove_first pat [] = []"
| "remove_first pat (c # cs) =
     (if take (length pat) (c # cs) = pat then drop (length pat) (c # cs)
      else c # remove_first pat cs)"

text \<open>The routes, in the order of the handler; the last line is the 404.\<close>

definition route :: "host \<Rightarrow> event \<Rightarrow> jsv \<Rightarrow> state \<Rightarrow> outcome" where
  "route h e b s =
     (let p = remove_first ''/.netlify/functions/payment'' (path e); m = httpMethod e in
      if p = ''/register'' \<and> m = ''POST'' then register e b s
      else if p = ''/config'' \<and> m = ''GET'' then config s
      else if p = ''/add-credit-card'' \<and> m = ''POST'' then add_credit_card e b s
      else if p = ''/add-standing-order'' \<and> m = ''POST'' then add_standing_order e b s
      else if p = ''/create-recurring'' \<and> m = ''POST'' then create_recurring h e b s
      else if p = ''/payment-methods'' \<and> m = ''POST'' then payment_methods h b s
      else if p = ''/payment-history'' \<and> m = ''POST'' then payment_history h b s
      else if p = ''/cancel-recurring'' \<and> m = ''POST'' then cancel_recurring b s
      else (Inr \<lparr>statusCode = 404, rbody = NotFound\<rparr>, s))"

text \<open>\<^verbatim>\<open>exports.handler\<close>: the preflight answer, then the \<^verbatim>\<open>try\<close> block, whose \<^verbatim>\<open>catch\<close>
  turns every exception into a 500; what was assigned before the exception stays.\<close>

definition handler :: "host \<Rightarrow> event \<Rightarrow> state \<Rightarrow> response \<times> state" where
  "handler h e s =
     (if httpMethod e = ''OPTIONS'' then (\<lparr>statusCode = 200, rbody = EmptyBody\<rparr>, s)
      else
        (case (case body e of
                 NoBody \<Rightarrow> route h e (JObj []) s
               | Malformed \<Rightarrow> (Inl SyntaxError, s)
               | Json b \<Rightarrow> route h e b s) of
           (Inl err, s') \<Rightarrow> (\<lparr>statusCode = 500, rbody = ServerError err\<rparr>, s')
         | (Inr r, s') \<Rightarrow> (r, s')))"

text \<open>The store after a sequence of requests, and the stores that requests can reach from
  the empty one.\<close>

fun run :: "host \<Rightarrow> state \<Rightarrow> event list \<Rightarrow> state" where
  "run h s [] = s"
| "run h s (e # es) = run h (snd (handler h e s)) es"

inductive reachable :: "host \<Rightarrow> state \<Rightarrow> bool" for h :: host where
  reachable_init: "reachable h init"
| reachable_step: "reachable h s \<Longrightarrow> reachable h (snd (handler h e s))"

section \<open>Notions the properties are stated with\<close>

text \<open>The UTC calendar date of a time value (year, month from 1, day), the three numbers
  that \<^verbatim>\<open>toISOString\<close> prints before the \<^verbatim>\<open>T\<close>.\<close>

definition civil :: "int \<Rightarrow> int \<times> int \<times> int" where
  "civil t = (YearFromTime t, MonthFromTime t + 1, DateFromTime t)"

definition iso_date :: "int \<times> int \<times> int \<Rightarrow> string" where
  "iso_date ymd = (case ymd of (y, m, d) \<Rightarrow> iso_year y @ ''-'' @ pad2 m @ ''-'' @ pad2 d)"

text \<open>A request as Netlify delivers it: a POST to a path of the function, with a JSON
  body, at clock reading \<open>t\<close>.\<close>

definition post :: "string \<Rightarrow> jsv \<Rightarrow> int \<Rightarrow> event" where
  "post p b t =
     \<lparr>httpMethod = ''POST'', path = ''/.netlify/functions/payment'' @ p, body = Json b,
      now = t, now2 = t\<rparr>"

text \<open>An engine that makes an invalid date of every string that is not the date-only string
  of a calendar date, the index 0 of every end index that is a string, and prints every
  number digit by digit.\<close>

definition strict_host :: host where
  "strict_host =
     \<lparr>Date_parse_other = (\<lambda>s. None), StringToIntegerOrInfinity = (\<lambda>s. Finite 0),
      Number_toString_other = show_int\<rparr>"

text \<open>The first payment record of an agreement, as \<^verbatim>\<open>/create-recurring\<close> makes the two
  objects: the next id, the same customer, payment method and amount, due on the start
  date, pending.\<close>

definition first_payment_of :: "recurring \<Rightarrow> payment \<Rightarrow> bool" where
  "first_payment_of r p =
     (p_id p = r_id r + 1 \<and> p_customer_id p = r_customer_id r \<and>
      p_payment_method_id p = r_payment_method_id r \<and> p_amount p = r_amount r \<and>
      due_date p = start_date r \<and> p_status p = ''pending'')"

text \<open>The shape of what \<^verbatim>\<open>/add-credit-card\<close> keeps of a card number: a string of at most
  four characters, or an array of at most four elements.  The elements of an array are
  kept whole, so this bounds the characters kept of a string only: the array
  \<^verbatim>\<open>["4532015112830366"]\<close> has the shape.\<close>

fun at_most_four_items :: "jsv \<Rightarrow> bool" where
  "at_most_four_items (JStr s) = (length s \<le> 4)"
| "at_most_four_items (JArr xs) = (length xs \<le> 4)"
| "at_most_four_items _ = False"

text \<open>An event that is a POST to route \<open>p\<close> of the function with JSON body \<open>b\<close>.\<close>

definition posts :: "event \<Rightarrow> string \<Rightarrow> jsv \<Rightarrow> bool" where
  "posts e p b =
     (httpMethod e = ''POST'' \<and> remove_first ''/.netlify/functions/payment'' (path e) = p \<and>
      body e = Json b)"

text \<open>The \<^verbatim>\<open>catch\<close> of the handler, on the outcome of a route.\<close>

definition caught :: "outcome \<Rightarrow> response \<times> state" where
  "caught out =
     (case out of
        (Inl err, s') \<Rightarrow> (\<lparr>statusCode = 500, rbody = ServerError err\<rparr>, s')
      | (Inr r, s') \<Rightarrow> (r, s'))"


text \<open>What every stored payment method and every store satisfies (shown below): methods
  are default and active, of one of the two shapes; agreements and payment records pair
  up in order; payment ids increase along the array and stay below the counter.\<close>

definition method_ok :: "payment_method \<Rightarrow> bool" where
  "method_ok m =
     (is_default m \<and> is_active m \<and>
      (m_payment_type m = ''credit_card'' \<and> at_most_four_items (card_number_last4 m) \<and>
         account_number m = JUndefined \<or>
       m_payment_type m = ''standing_order'' \<and> card_number_last4 m = JUndefined))"

definition store_inv :: "state \<Rightarrow> bool" where
  "store_inv s =
     ((\<forall>m \<in> set (paymentMethods s). method_ok m) \<and>
      list_all2 first_payment_of (recurringPayments s) (payments s) \<and>
      sorted_wrt (<) (map p_id (payments s)) \<and>
      (\<forall>p \<in> set (payments s). p_id p < idCounter s))"

text \<open>The payment records of a customer, in the order of the \<^verbatim>\<open>payments\<close> array: what the
  \<^verbatim>\<open>filter\<close> of line 222 selects.\<close>

definition records_of :: "jsv \<Rightarrow> state \<Rightarrow> payment list" where
  "records_of customer s = filter (\<lambda>p. strict_eq (p_customer_id p) customer) (payments s)"

text \<open>The ids of the records in a \<^verbatim>\<open>/payment-history\<close> response, in the order of the
  response.\<close>

definition history_ids :: "response \<Rightarrow> int list" where
  "history_ids r = (case rbody r of PaymentHistory ps \<Rightarrow> map p_id ps | _ \<Rightarrow> [])"

section \<open>Example requests\<close>

text \<open>Request bodies of the five routes that the examples below send.\<close>

definition card_body :: "jsv \<Rightarrow> string \<Rightarrow> jsv" where
  "card_body customer number =
     JObj [(''customer_id'', customer), (''card_number'', JStr number),
           (''card_holder_name'', JStr ''Dana Levi''), (''expiry_month'', JStr ''12''),
           (''expiry_year'', JStr ''2030''), (''cvv'', JStr ''123'')]"

definition card_body_cvv :: "jsv \<Rightarrow> jsv \<Rightarrow> string \<Rightarrow> jsv" where
  "card_body_cvv customer number cvv =
     JObj [(''customer_id'', customer), (''card_number'', number),
           (''card_holder_name'', JStr ''Dana Levi''), (''expiry_month'', JStr ''12''),
           (''expiry_year'', JStr ''2030''), (''cvv'', JStr cvv)]"

definition standing_order_body :: "jsv \<Rightarrow> string \<Rightarrow> jsv" where
  "standing_order_body customer account =
     JObj [(''customer_id'', customer), (''bank_code'', JStr ''12''),
           (''branch_code'', JStr ''345''), (''account_number'', JStr account),
           (''account_holder_name'', JStr ''Dana Levi'')]"

definition recurring_body :: "jsv \<Rightarrow> string \<Rightarrow> jsv" where
  "recurring_body customer start =
     JObj [(''customer_id'', customer), (''payment_method_id'', JNum 1),
           (''start_date'', JStr start)]"

definition history_body :: "jsv \<Rightarrow> jsv \<Rightarrow> jsv" where
  "history_body customer limit = JObj [(''customer_id'', customer), (''limit'', limit)]"

definition methods_body :: "jsv \<Rightarrow> jsv" where
  "methods_body customer = JObj [(''customer_id'', customer)]"

section \<open>The specification's own rules\<close>

text \<open>
  Two rules are written here from the words of the specification, to be compared with the
  handler.  The first is its \<open>advance\<close> for a monthly agreement: one calendar month later,
  on the same day of the month where the target month has it, otherwise on the last day
  of the target month.
\<close>

definition spec_advance :: "int \<times> int \<times> int \<Rightarrow> int \<times> int \<times> int" where
  "spec_advance ymd =
     (case ymd of (y, m, d) \<Rightarrow>
        let y' = (if m = 12 then y + 1 else y); m' = (if m = 12 then 1 else m + 1)
        in (y', m', min d (days_in_month y' m')))"

text \<open>
  The second is its card-number check: non-digits are stripped, the length has to be 12 to
  19 digits, and the Luhn sum (every second digit from the right doubled, a doubled digit
  above 9 reduced by 9) has to be a multiple of 10.
\<close>

definition spec_digits :: "string \<Rightarrow> int list" where
  "spec_digits s = List.map_filter digit_val s"

fun spec_luhn_sum :: "bool \<Rightarrow> int list \<Rightarrow> int" where
  "spec_luhn_sum dbl [] = 0"
| "spec_luhn_sum dbl (d # ds) =
     (if dbl then (if 2 * d > 9 then 2 * d - 9 else 2 * d) else d) + spec_luhn_sum (\<not> dbl) ds"

definition spec_card_number_valid :: "string \<Rightarrow> bool" where
  "spec_card_number_valid s =
     (let ds = spec_digits s in
      12 \<le> length ds \<and> length ds \<le> 19 \<and> spec_luhn_sum False (rev ds) mod 10 = 0)"

section \<open>The calendar\<close>

lemma div_succ:
  fixes x c :: int
  assumes c: "0 < c"
  shows "(x + 1) div c = x div c + (if (x + 1) mod c = 0 then 1 else 0)"
proof -
  define q where "q = x div c"
  define r where "r = x mod c"
  have x: "x = c * q + r" and r0: "0 \<le> r" and rc: "r < c"
    using c by (simp_all add: q_def r_def)
  show ?thesis
  proof (cases "r + 1 = c")
    case True
    then have e: "x + 1 = c * (q + 1) + 0" using x by (simp add: algebra_simps)
    have "(x + 1) div c = q + 1" using int_div_pos_eq [OF e] c by simp
    moreover have "(x + 1) mod c = 0" using int_mod_pos_eq [OF e] c by simp
    ultimately show ?thesis by (simp add: q_def)
  next
    case False
    then have lt: "r + 1 < c" using rc by simp
    have e: "x + 1 = c * q + (r + 1)" using x by simp
    have "(x + 1) div c = q" using int_div_pos_eq [OF e] r0 lt by simp
    moreover have "(x + 1) mod c = r + 1" using int_mod_pos_eq [OF e] r0 lt by simp
    ultimately show ?thesis using r0 by (simp add: q_def)
  qed
qed

lemma mod_shift4: "((y::int) - 1968) mod 4 = y mod 4"
proof -
  have "y - 1968 = y + (- 492) * 4" by simp
  then show ?thesis by (metis mod_mult_self1)
qed

lemma mod_shift100: "((y::int) - 1900) mod 100 = y mod 100"
proof -
  have "y - 1900 = y + (- 19) * 100" by simp
  then show ?thesis by (metis mod_mult_self1)
qed

lemma mod_shift400: "((y::int) - 1600) mod 400 = y mod 400"
proof -
  have "y - 1600 = y + (- 4) * 400" by simp
  then show ?thesis by (metis mod_mult_self1)
qed

lemma mod_400_100: "(y::int) mod 400 = 0 \<Longrightarrow> y mod 100 = 0"
proof -
  assume "y mod 400 = 0"
  then have "400 dvd y" by (simp add: mod_eq_0_iff_dvd)
  moreover have "(100::int) dvd 400" by simp
  ultimately have "100 dvd y" by (rule dvd_trans [rotated])
  then show ?thesis by simp
qed

lemma mod_100_4: "(y::int) mod 100 = 0 \<Longrightarrow> y mod 4 = 0"
proof -
  assume "y mod 100 = 0"
  then have "100 dvd y" by (simp add: mod_eq_0_iff_dvd)
  moreover have "(4::int) dvd 100" by simp
  ultimately have "4 dvd y" by (rule dvd_trans [rotated])
  then show ?thesis by simp
qed

lemma DayFromYear_step: "DayFromYear (y + 1) = DayFromYear y + DaysInYear y"
proof -
  have a: "(y + 1 - 1969) div 4 = (y - 1969) div 4 + (if y mod 4 = 0 then 1 else 0)"
    using div_succ [of 4 "y - 1969"] mod_shift4 [of y] by (simp add: algebra_simps)
  have b: "(y + 1 - 1901) div 100 = (y - 1901) div 100 + (if y mod 100 = 0 then 1 else 0)"
    using div_succ [of 100 "y - 1901"] mod_shift100 [of y] by (simp add: algebra_simps)
  have c: "(y + 1 - 1601) div 400 = (y - 1601) div 400 + (if y mod 400 = 0 then 1 else 0)"
    using div_succ [of 400 "y - 1601"] mod_shift400 [of y] by (simp add: algebra_simps)
  have d: "365 * (y + 1 - 1970) = 365 * (y - 1970) + 365"
    by simp
  show ?thesis
    unfolding DayFromYear_def DaysInYear_def a b c d
    using mod_400_100 [of y] mod_100_4 [of y] by auto
qed

lemma DaysInYear_bounds: "365 \<le> DaysInYear y" "DaysInYear y \<le> 366"
  by (simp_all add: DaysInYear_def)

lemma DayFromYear_1970: "DayFromYear 1970 = 0"
  by (simp add: DayFromYear_def)

lemma DayFromYear_lower: "0 \<le> k \<Longrightarrow> 365 * k \<le> DayFromYear (1970 + k)"
proof (induction k rule: int_ge_induct)
  case base
  then show ?case by (simp add: DayFromYear_1970)
next
  case (step i)
  have "DayFromYear (1970 + (i + 1)) = DayFromYear (1970 + i) + DaysInYear (1970 + i)"
    using DayFromYear_step [of "1970 + i"] by (simp add: add.assoc)
  then show ?case using step.IH DaysInYear_bounds(1) [of "1970 + i"]
    by (simp add: distrib_left)
qed

lemma DayFromYear_upper: "k \<le> 0 \<Longrightarrow> 366 * k \<le> DayFromYear (1970 + k)"
proof (induction k rule: int_le_induct)
  case base
  then show ?case by (simp add: DayFromYear_1970)
next
  case (step i)
  have "DayFromYear (1970 + i) = DayFromYear (1970 + (i - 1)) + DaysInYear (1970 + (i - 1))"
    using DayFromYear_step [of "1970 + (i - 1)"] by simp
  then show ?case using step.IH DaysInYear_bounds(2) [of "1970 + (i - 1)"]
    by (simp add: right_diff_distrib)
qed

lemma year_search_bracket:
  "n < DayFromYear (y + 1) \<Longrightarrow>
   DayFromYear (year_search y n) \<le> n \<and> n < DayFromYear (year_search y n + 1)"
proof (induction y n rule: year_search.induct)
  case (1 y n)
  show ?case
  proof (cases "DayFromYear y \<le> n")
    case True
    then show ?thesis using "1.prems" by (simp add: year_search.simps)
  next
    case False
    then have "n < DayFromYear (y - 1 + 1)" by simp
    from "1.IH" [OF False this] False show ?thesis by (simp add: year_search.simps)
  qed
qed

lemma YearFromDay_bracket:
  "DayFromYear (YearFromDay n) \<le> n \<and> n < DayFromYear (YearFromDay n + 1)"
proof (cases "0 \<le> n")
  case True
  have "365 * (n div 365 + 1) \<le> DayFromYear (1970 + (n div 365 + 1))"
    using True by (intro DayFromYear_lower) (simp add: pos_imp_zdiv_nonneg_iff)
  moreover have "n < 365 * (n div 365 + 1)"
    using pos_mod_bound [of 365 n] mult_div_mod_eq [of 365 n] by (simp add: distrib_left)
  ultimately have "n < DayFromYear (1970 + n div 365 + 1)"
    by (simp add: add.assoc)
  from year_search_bracket [OF this] True show ?thesis
    by (simp add: YearFromDay_def)
next
  case False
  then have "n div 366 + 1 \<le> 0"
    by (simp add: div_neg_pos_less0 add1_zle_eq)
  then have "366 * (n div 366 + 1) \<le> DayFromYear (1970 + (n div 366 + 1))"
    by (rule DayFromYear_upper)
  moreover have "n < 366 * (n div 366 + 1)"
    using pos_mod_bound [of 366 n] mult_div_mod_eq [of 366 n] by (simp add: distrib_left)
  ultimately have "n < DayFromYear (1970 + n div 366 + 1)"
    by (simp add: add.assoc)
  from year_search_bracket [OF this] False show ?thesis
    by (simp add: YearFromDay_def)
qed

lemma Day_decomp: "MakeDate (Day t) (TimeWithinDay t) = t"
  by (simp add: MakeDate_def Day_def TimeWithinDay_def)


lemma DaysInYear_leap: "DaysInYear (YearFromTime t) = 365 + InLeapYear t"
  by (simp add: InLeapYear_def DaysInYear_def)

lemma InLeapYear_cases: "InLeapYear t = 0 \<or> InLeapYear t = 1"
  by (simp add: InLeapYear_def)


lemma MonthFromTime_cases:
  "MonthFromTime t \<in> {0, 1, 2, 3, 4, 5, 6, 7, 8, 9, 10, 11}"
  by (simp add: MonthFromTime_def Let_def)


lemma month_start_succ:
  assumes "m \<in> {0, 1, 2, 3, 4, 5, 6, 7, 8, 9, 10}" and "l = 0 \<or> l = 1"
  shows "month_start l (m + 1) =
         month_start l m +
         (if m + 1 = 2 then 28 + l else if m + 1 = 4 \<or> m + 1 = 6 \<or> m + 1 = 9 \<or> m + 1 = 11
          then 30 else 31)"
  using assms(1) by (elim insertE emptyE) (simp_all add: month_start_def)

lemma Day_civil:
  "Day t = DayFromYear (YearFromTime t) + month_start (InLeapYear t) (MonthFromTime t) +
     DateFromTime t - 1"
  by (simp add: DateFromTime_def DayWithinYear_def)

lemma MakeDay_next_month:
  "MakeDay (YearFromTime t) (MonthFromTime t + 1) (DateFromTime t) =
     Day t + days_in_month (YearFromTime t) (MonthFromTime t + 1)"
proof -
  define l where "l = InLeapYear t"
  define m where "m = MonthFromTime t"
  define y where "y = YearFromTime t"
  have l: "l = 0 \<or> l = 1"
    using InLeapYear_cases [of t] by (simp add: l_def)
  have diy: "DaysInYear y = 365 + l"
    using DaysInYear_leap [of t] by (simp add: l_def y_def)
  have leap: "(if DaysInYear y = 366 then 1 else 0) = l"
    using l diy by auto
  have dim: "days_in_month y (m + 1) =
      (if m + 1 = 2 then 28 + l else if m + 1 = 4 \<or> m + 1 = 6 \<or> m + 1 = 9 \<or> m + 1 = 11
       then 30 else 31)"
    using l diy by (auto simp add: days_in_month_def)
  have day: "Day t = DayFromYear y + month_start l m + DateFromTime t - 1"
    using Day_civil [of t] by (simp add: l_def m_def y_def)
  have m: "m \<in> {0, 1, 2, 3, 4, 5, 6, 7, 8, 9, 10} \<or> m = 11"
    using MonthFromTime_cases [of t] by (auto simp add: m_def)
  have "MakeDay y (m + 1) (DateFromTime t) = Day t + days_in_month y (m + 1)"
  proof (cases "m = 11")
    case True
    have "DayFromYear (y + 1) = DayFromYear y + 365 + l"
      using DayFromYear_step [of y] diy by simp
    then show ?thesis
      using True by (simp add: MakeDay_def day month_start_def days_in_month_def)
  next
    case False
    with m have mm: "m \<in> {0, 1, 2, 3, 4, 5, 6, 7, 8, 9, 10}" by simp
    then have range: "0 \<le> m + 1" "m + 1 < 12" by auto
    have "(m + 1) div 12 = 0" "(m + 1) mod 12 = m + 1"
      using range by simp_all
    then have "MakeDay y (m + 1) (DateFromTime t) =
        DayFromYear y + month_start l (m + 1) + DateFromTime t - 1"
      by (simp add: MakeDay_def leap)
    then show ?thesis
      unfolding day dim month_start_succ [OF mm l] by simp
  qed
  then show ?thesis
    by (simp add: m_def y_def)
qed


lemma DayFromYear_mono: "a \<le> b \<Longrightarrow> DayFromYear a \<le> DayFromYear b"
proof (induction b rule: int_ge_induct)
  case base
  then show ?case by simp
next
  case (step i)
  then show ?case
    using DayFromYear_step [of i] DaysInYear_bounds(1) [of i] by simp
qed

lemma YearFromDay_unique:
  assumes "DayFromYear y \<le> n" and "n < DayFromYear (y + 1)"
  shows "YearFromDay n = y"
proof (rule ccontr)
  assume ne: "YearFromDay n \<noteq> y"
  have b: "DayFromYear (YearFromDay n) \<le> n" "n < DayFromYear (YearFromDay n + 1)"
    using YearFromDay_bracket [of n] by simp_all
  show False
  proof (cases "YearFromDay n < y")
    case True
    then have "DayFromYear (YearFromDay n + 1) \<le> DayFromYear y"
      by (intro DayFromYear_mono) simp
    with b(2) assms(1) show False by simp
  next
    case False
    with ne have "DayFromYear (y + 1) \<le> DayFromYear (YearFromDay n)"
      by (intro DayFromYear_mono) simp
    with b(1) assms(2) show False by simp
  qed
qed

lemma MakeDay_in_year:
  assumes "valid_date (y, m, d)"
  shows "MakeDay y (m - 1) d =
         DayFromYear y + month_start (if DaysInYear y = 366 then 1 else 0) (m - 1) + d - 1"
proof -
  have "0 \<le> m - 1" "m - 1 < 12"
    using assms by (simp_all add: valid_date_def)
  then have "(m - 1) div 12 = 0" "(m - 1) mod 12 = m - 1"
    by simp_all
  then show ?thesis
    by (simp add: MakeDay_def)
qed

lemma valid_date_cases:
  assumes "valid_date (y, m, d)"
  shows "m \<in> {1, 2, 3, 4, 5, 6, 7, 8, 9, 10, 11, 12}"
proof -
  have "1 \<le> m" "m \<le> 12" using assms by (simp_all add: valid_date_def)
  then have "m = 1 \<or> m = 2 \<or> m = 3 \<or> m = 4 \<or> m = 5 \<or> m = 6 \<or> m = 7 \<or> m = 8 \<or>
             m = 9 \<or> m = 10 \<or> m = 11 \<or> m = 12"
    by arith
  then show ?thesis by simp
qed

lemma civil_of_valid_date:
  assumes v: "valid_date (y, m, d)" and tw: "0 \<le> tw" "tw < msPerDay"
  shows "civil (MakeDate (MakeDay y (m - 1) d) tw) = (y, m, d)"
proof -
  define l :: int where "l = (if DaysInYear y = 366 then 1 else 0)"
  define t where "t = MakeDate (MakeDay y (m - 1) d) tw"
  define k where "k = month_start l (m - 1) + d - 1"
  have l: "l = 0 \<or> l = 1" by (simp add: l_def)
  have diy: "DaysInYear y = 365 + l"
    by (simp add: l_def DaysInYear_def)
  have dim: "days_in_month y m =
     (if m = 2 then 28 + l else if m = 4 \<or> m = 6 \<or> m = 9 \<or> m = 11 then 30 else 31)"
    by (simp add: days_in_month_def l_def)
  have m: "m \<in> {1, 2, 3, 4, 5, 6, 7, 8, 9, 10, 11, 12}"
    using v by (rule valid_date_cases)
  have d: "1 \<le> d" "d \<le> days_in_month y m"
    using v by (simp_all add: valid_date_def)
  have day: "Day t = DayFromYear y + k"
  proof -
    have "Day t = MakeDay y (m - 1) d"
      using tw by (simp add: t_def MakeDate_def Day_def msPerDay_def)
    then show ?thesis
      using MakeDay_in_year [OF v] by (simp add: k_def l_def)
  qed
  have k: "0 \<le> k" "k < 365 + l"
    using m d l unfolding dim k_def
    by (elim insertE emptyE; simp add: month_start_def; linarith)+
  have year: "YearFromTime t = y"
    unfolding YearFromTime_def using k day diy DayFromYear_step [of y]
    by (intro YearFromDay_unique) simp_all
  have leap: "InLeapYear t = l"
    by (simp add: InLeapYear_def year l_def)
  have dwy: "DayWithinYear t = k"
    by (simp add: DayWithinYear_def year day)
  have month: "MonthFromTime t = m - 1"
    unfolding MonthFromTime_def Let_def dwy leap
    using m d l unfolding dim k_def
    by (elim insertE emptyE; simp add: month_start_def; linarith)
  have date: "DateFromTime t = d"
    by (simp add: DateFromTime_def dwy leap month k_def)
  show ?thesis
    using year month date by (simp add: civil_def t_def)
qed

lemma advance_month_time:
  "advance_month (Some t) =
     TimeClip (t + days_in_month (YearFromTime t) (MonthFromTime t + 1) * msPerDay)"
proof -
  have "MakeDate (Day t + days_in_month (YearFromTime t) (MonthFromTime t + 1)) (TimeWithinDay t)
        = t + days_in_month (YearFromTime t) (MonthFromTime t + 1) * msPerDay"
    using Day_decomp [of t] by (simp add: MakeDate_def distrib_right)
  then show ?thesis
    by (simp add: advance_month_def setMonth_def getMonth_def MakeDay_next_month)
qed

lemma days_in_month_bounds: "28 \<le> days_in_month y m" "days_in_month y m \<le> 31"
  by (simp_all add: days_in_month_def)

lemma digit_char_not_T: "digit_char d \<noteq> CHR ''T''"
proof -
  have "0 \<le> d mod 10" "d mod 10 < 10" by simp_all
  then have "d mod 10 = 0 \<or> d mod 10 = 1 \<or> d mod 10 = 2 \<or> d mod 10 = 3 \<or> d mod 10 = 4 \<or>
      d mod 10 = 5 \<or> d mod 10 = 6 \<or> d mod 10 = 7 \<or> d mod 10 = 8 \<or> d mod 10 = 9"
    by arith
  then show ?thesis
    unfolding digit_char_def by (elim disjE) simp_all
qed

lemma split_T_0_toISOString: "split_T_0 (toISOString t) = iso_date (civil t)"
  by (simp add: split_T_0_def toISOString_def iso_date_def civil_def iso_year_def
      pad2_def pad4_def pad6_def digit_char_not_T)

lemma digit_val_range: "digit_val c = Some v \<Longrightarrow> 0 \<le> v \<and> v \<le> 9"
  by (auto simp add: digit_val_def split: if_splits)

lemma date_only_range:
  assumes "date_only s = Some (y, m, d)"
  shows "0 \<le> y \<and> y \<le> 9999"
  using assms
  by (auto elim!: date_only.elims split: if_splits option.splits dest!: digit_val_range)

lemma DayFromYear_0: "DayFromYear 0 = - 719528"
  by (simp add: DayFromYear_def)

lemma DayFromYear_10000: "DayFromYear 10000 = 2932897"
  by (simp add: DayFromYear_def)

lemma time_of_date_range:
  assumes v: "valid_date (y, m, d)" and y: "0 \<le> y" "y \<le> 9999"
  defines "t \<equiv> MakeDate (MakeDay y (m - 1) d) 0"
  shows "- 62167219200000 \<le> t" "t < 253402300800000"
proof -
  have c: "civil t = (y, m, d)"
    unfolding t_def by (rule civil_of_valid_date [OF v]) (simp_all add: msPerDay_def)
  then have yt: "YearFromTime t = y" by (simp add: civil_def)
  have b: "DayFromYear y \<le> Day t" "Day t < DayFromYear (y + 1)"
    using YearFromDay_bracket [of "Day t"] yt by (simp_all add: YearFromTime_def)
  have "DayFromYear 0 \<le> DayFromYear y" "DayFromYear (y + 1) \<le> DayFromYear 10000"
    using y by (simp_all add: DayFromYear_mono)
  with b have d: "- 719528 \<le> Day t" "Day t < 2932897"
    by (simp_all add: DayFromYear_0 DayFromYear_10000)
  have t: "t = Day t * 86400000"
    by (simp add: t_def MakeDate_def Day_def msPerDay_def)
  show "- 62167219200000 \<le> t" using d(1) by (subst t) simp
  show "t < 253402300800000" using d(2) by (subst t) simp
qed

lemma advance_month_some:
  assumes "- 8640000000000000 \<le> t" "t \<le> 8637321600000000"
  shows "\<exists>t'. advance_month (Some t) = Some t' \<and> t + 2419200000 \<le> t' \<and>
           t' \<le> t + 2678400000"
proof -
  define n where "n = days_in_month (YearFromTime t) (MonthFromTime t + 1)"
  have n: "28 \<le> n" "n \<le> 31"
    by (simp_all add: n_def days_in_month_bounds)
  have "\<bar>t + n * 86400000\<bar> \<le> 8640000000000000"
    using assms n by simp
  then have "advance_month (Some t) = Some (t + n * 86400000)"
    by (simp add: advance_month_time n_def TimeClip_def msPerDay_def)
  then show ?thesis using n by simp
qed

section \<open>The handler, route by route\<close>

lemma slice_last4_length: "length (slice_last4 xs) \<le> 4"
  by (simp add: slice_last4_def)

lemma slice_m4_items: "slice_m4 v = Inr w \<Longrightarrow> at_most_four_items w"
  by (cases v) (auto simp add: slice_last4_length)

lemma ToString_error: "ToString h v = Inl err \<Longrightarrow> err = TypeError"
  and join_elems_error: "join_elems h vs = Inl err \<Longrightarrow> err = TypeError"
  by (induction h v and h vs rule: ToString_join_elems.induct)
    (auto split: if_splits sum.splits)

lemma register_inv: "store_inv s \<Longrightarrow> store_inv (snd (register e b s))"
  by (auto simp add: register_def Let_def store_inv_def)

lemma add_credit_card_inv: "store_inv s \<Longrightarrow> store_inv (snd (add_credit_card e b s))"
  by (auto simp add: add_credit_card_def Let_def store_inv_def method_ok_def
      slice_m4_items split: sum.splits)

lemma add_standing_order_inv: "store_inv s \<Longrightarrow> store_inv (snd (add_standing_order e b s))"
  by (auto simp add: add_standing_order_def Let_def store_inv_def method_ok_def
     )

lemma create_recurring_inv: "store_inv s \<Longrightarrow> store_inv (snd (create_recurring h e b s))"
  by (auto simp add: create_recurring_def Let_def store_inv_def first_payment_of_def
      list_all2_appendI sorted_wrt_append split: option.splits sum.splits)

lemma payment_methods_state: "snd (payment_methods h b s) = s"
  by (simp add: payment_methods_def Let_def split: sum.splits)

lemma payment_history_state: "snd (payment_history h b s) = s"
  by (simp add: payment_history_def Let_def split: sum.splits)

lemma cancel_found_paired:
  "list_all2 first_payment_of rs ps \<Longrightarrow> list_all2 first_payment_of (cancel_found rid rs) ps"
proof (induction rs arbitrary: ps)
  case Nil
  then show ?case by simp
next
  case (Cons r rs)
  then show ?case
    by (cases ps) (auto simp add: first_payment_of_def)
qed

lemma cancel_recurring_inv: "store_inv s \<Longrightarrow> store_inv (snd (cancel_recurring b s))"
  by (auto simp add: cancel_recurring_def Let_def store_inv_def cancel_found_paired)

lemma route_inv: "store_inv s \<Longrightarrow> store_inv (snd (route h e b s))"
  by (simp add: route_def Let_def register_inv config_def add_credit_card_inv
      add_standing_order_inv create_recurring_inv payment_methods_state
      payment_history_state cancel_recurring_inv)

lemma handler_snd:
  "snd (handler h e s) =
     (if httpMethod e = ''OPTIONS'' then s
      else case body e of
             NoBody \<Rightarrow> snd (route h e (JObj []) s)
           | Malformed \<Rightarrow> s
           | Json b \<Rightarrow> snd (route h e b s))"
  by (simp add: handler_def split: body_in.splits prod.splits sum.splits)

lemma handler_inv: "store_inv s \<Longrightarrow> store_inv (snd (handler h e s))"
  by (simp add: handler_snd route_inv split: body_in.splits)

lemma init_inv: "store_inv init"
  by (simp add: store_inv_def init_def)

lemma reachable_inv: "reachable h s \<Longrightarrow> store_inv s"
  by (induction rule: reachable.induct) (simp_all add: init_inv handler_inv)

lemma reachable_run: "reachable h s \<Longrightarrow> reachable h (run h s es)"
  by (induction es arbitrary: s) (simp_all add: reachable_step)

lemma posts_post: "posts (post p b t) p b"
  by (simp add: posts_def post_def)

lemma handler_posts:
  assumes "posts e p b"
  shows "handler h e s = caught (route h e b s)"
  using assms by (simp add: posts_def handler_def caught_def)

lemma route_cancel_recurring:
  "posts e ''/cancel-recurring'' b \<Longrightarrow> route h e b s = cancel_recurring b s"
  by (simp add: posts_def route_def)

lemma route_add_credit_card:
  "posts e ''/add-credit-card'' b \<Longrightarrow> route h e b s = add_credit_card e b s"
  by (simp add: posts_def route_def)

lemma route_add_standing_order:
  "posts e ''/add-standing-order'' b \<Longrightarrow> route h e b s = add_standing_order e b s"
  by (simp add: posts_def route_def)

lemma route_create_recurring:
  "posts e ''/create-recurring'' b \<Longrightarrow> route h e b s = create_recurring h e b s"
  by (simp add: posts_def route_def)

lemma route_payment_history:
  "posts e ''/payment-history'' b \<Longrightarrow> route h e b s = payment_history h b s"
  by (simp add: posts_def route_def)


lemma truthy_field_destructurable: "truthy (get_field b k) \<Longrightarrow> destructurable b"
  by (cases b) (simp_all add: destructurable_def)

lemma cancel_found_twice: "cancel_found rid (cancel_found rid rs) = cancel_found rid rs"
  by (induction rs) simp_all

lemma cancel_found_unknown:
  "\<forall>r \<in> set rs. \<not> strict_eq (JNum (r_id r)) rid \<Longrightarrow> cancel_found rid rs = rs"
  by (induction rs) simp_all

lemma cancel_found_find:
  "find (\<lambda>r. strict_eq (JNum (r_id r)) rid) (cancel_found rid rs) =
     map_option (\<lambda>r. r\<lparr>r_status := ''cancelled''\<rparr>)
       (find (\<lambda>r. strict_eq (JNum (r_id r)) rid) rs)"
  by (induction rs) simp_all

lemma cancel_found_cancelled:
  "find (\<lambda>r. strict_eq (JNum (r_id r)) rid) rs = Some r \<Longrightarrow> r_status r = ''cancelled'' \<Longrightarrow>
   cancel_found rid rs = rs"
  by (induction rs) (auto split: if_splits)

lemma state_update_same: "s\<lparr>recurringPayments := recurringPayments s\<rparr> = s"
  by simp


lemmas date_defs =
  next_payment_date_of_def nextPaymentDate_def advance_month_def new_Date_def Date_parse_def
  valid_date_def
  days_in_month_def DaysInYear_def TimeClip_def MakeDate_def MakeDay_def DayFromYear_def
  month_start_def msPerDay_def setMonth_def getMonth_def MonthFromTime_def DayWithinYear_def
  Day_def YearFromTime_def YearFromDay_def InLeapYear_def DateFromTime_def TimeWithinDay_def
  toISOString_def split_T_0_def iso_year_def pad2_def pad3_def pad4_def digit_char_def
  digit_val_def year_search.simps

lemmas handler_defs =
  handler_def route_def post_def register_def config_def add_credit_card_def
  add_standing_order_def create_recurring_def payment_methods_def payment_history_def
  cancel_recurring_def ok_def bad_request_def destructurable_def js_or_def Let_def
  MONTHLY_AMOUNT_def init_def strict_host_def has_own_def ToPrimitive_string_def

lemma reachable_methods_ok:
  "reachable h s \<Longrightarrow> m \<in> set (paymentMethods s) \<Longrightarrow> method_ok m"
  using reachable_inv [of h s] by (simp add: store_inv_def)

lemma add_credit_card_ok:
  assumes "statusCode (fst (caught (add_credit_card e b s))) = 200"
  shows "\<exists>m. is_default m \<and> m_customer_id m = get_field b ''customer_id'' \<and>
           paymentMethods (snd (caught (add_credit_card e b s))) = paymentMethods s @ [m]"
  using assms
  by (auto simp add: add_credit_card_def caught_def Let_def ok_def bad_request_def
      split: sum.splits if_splits)

lemma add_standing_order_ok:
  assumes "statusCode (fst (caught (add_standing_order e b s))) = 200"
  shows "\<exists>m. is_default m \<and> m_customer_id m = get_field b ''customer_id'' \<and>
           account_number m = get_field b ''account_number'' \<and>
           paymentMethods (snd (caught (add_standing_order e b s))) = paymentMethods s @ [m]"
  using assms
  by (auto simp add: add_standing_order_def caught_def Let_def ok_def bad_request_def
      split: sum.splits if_splits)

lemmas example_defs = card_body_def standing_order_body_def recurring_body_def history_body_def
  methods_body_def card_body_cvv_def

lemma reachable_example: "reachable h (run h init es)"
  by (rule reachable_run) (rule reachable_init)

lemma slice_last4_Nil: "slice_last4 xs = [] \<longleftrightarrow> xs = []"
  by (cases xs) (simp_all add: slice_last4_def)

lemma get_field_destructurable: "get_field b k = JStr n \<Longrightarrow> destructurable b"
  by (cases b) (simp_all add: destructurable_def)




lemma slice_0_take: "slice_0 h xs v = Inr ys \<Longrightarrow> \<exists>n. ys = take n xs"
proof (cases "v = JUndefined")
  case True
  assume "slice_0 h xs v = Inr ys"
  with True have "ys = take (length xs) xs" by (simp add: slice_0_def)
  then show ?thesis by blast
next
  case False
  assume r: "slice_0 h xs v = Inr ys"
  then obtain i where i: "ToIntegerOrInfinity h v = Inr i"
    using False by (auto simp add: slice_0_def split: sum.splits)
  show ?thesis
  proof (cases i)
    case (Finite k)
    with r i False show ?thesis by (auto simp add: slice_0_def split: if_splits)
  next
    case PlusInfinity
    with r i False have "ys = take (length xs) xs" by (simp add: slice_0_def)
    then show ?thesis by blast
  next
    case MinusInfinity
    with r i False have "ys = take 0 xs" by (simp add: slice_0_def)
    then show ?thesis by blast
  qed
qed

lemma slice_0_positive: "0 < k \<Longrightarrow> slice_0 h xs (JNum k) = Inr (take (nat k) xs)"
  by (simp add: slice_0_def ToIntegerOrInfinity_def min_def)

lemma slice_0_error:
  "slice_0 h xs v = Inl err \<longleftrightarrow> v \<noteq> JUndefined \<and> ToIntegerOrInfinity h v = Inl err"
  by (simp add: slice_0_def split: sum.splits integer_or_infinity.splits)

lemma ToIntegerOrInfinity_error:
  "ToIntegerOrInfinity h v = Inl err \<Longrightarrow> err = TypeError"
  by (auto simp add: ToIntegerOrInfinity_def ToPrimitive_string_def has_own_def
      dest: join_elems_error split: jsv.splits sum.splits if_splits)

lemma ToIntegerOrInfinity_own_toString:
  "has_own kvs ''toString'' \<Longrightarrow> ToIntegerOrInfinity h (JObj kvs) = Inl TypeError"
  by (simp add: ToIntegerOrInfinity_def ToPrimitive_string_def)




lemma sorted_wrt_take: "sorted_wrt P xs \<Longrightarrow> sorted_wrt P (take n xs)"
  by (metis append_take_drop_id sorted_wrt_append)

lemma sorted_ids_filter:
  "sorted_wrt (<) (map p_id ps) \<Longrightarrow> sorted_wrt (<) (map p_id (filter P ps))"
  by (induction ps) auto

lemma MakeDay_month_12: "MakeDay y 12 d = MakeDay (y + 1) 0 d"
  by (simp add: MakeDay_def)

lemma advance_month_same_day:
  assumes s: "date_only sd = Some (y, m, d)" and v: "valid_date (y, m, d)"
    and k: "spec_advance (y, m, d) = (y', m', d)"
  shows "next_payment_date_of h (JStr sd) = Inr (iso_date (y', m', d))"
proof -
  define t0 where "t0 = MakeDate (MakeDay y (m - 1) d) 0"
  have y: "0 \<le> y" "y \<le> 9999"
    using date_only_range [OF s] by simp_all
  have r0: "- 62167219200000 \<le> t0" "t0 < 253402300800000"
    unfolding t0_def by (rule time_of_date_range [OF v y])+
  then have new: "new_Date h (JStr sd) = Inr (Some t0)"
    using s v by (simp add: new_Date_def Date_parse_def TimeClip_def t0_def)
  have c0: "civil t0 = (y, m, d)"
    unfolding t0_def by (rule civil_of_valid_date [OF v]) (simp_all add: msPerDay_def)
  have tw: "TimeWithinDay t0 = 0"
    by (simp add: t0_def TimeWithinDay_def MakeDate_def msPerDay_def)
  obtain t1 where t1: "advance_month (Some t0) = Some t1"
    using advance_month_some [of t0] r0 by auto
  have m: "1 \<le> m" "m \<le> 12" "1 \<le> d"
    using v by (simp_all add: valid_date_def)
  have ym: "y' = (if m = 12 then y + 1 else y)" "m' = (if m = 12 then 1 else m + 1)"
    and dd: "d \<le> days_in_month y' m'"
    using k by (auto simp add: spec_advance_def Let_def min_def split: if_splits)
  have v': "valid_date (y', m', d)"
    using m dd by (simp add: valid_date_def ym)
  have "MakeDay y m d = MakeDay y' (m' - 1) d"
    by (simp add: ym MakeDay_month_12)
  moreover have "advance_month (Some t0) = TimeClip (MakeDate (MakeDay y m d) 0)"
    using c0 tw by (simp add: advance_month_def setMonth_def getMonth_def civil_def)
  ultimately have "t1 = MakeDate (MakeDay y' (m' - 1) d) 0"
    using t1 by (simp add: TimeClip_def split: if_splits)
  then have "civil t1 = (y', m', d)"
    using civil_of_valid_date [OF v', of 0] by (simp add: msPerDay_def)
  then show ?thesis
    by (simp add: next_payment_date_of_def nextPaymentDate_def new t1 split_T_0_toISOString)
qed

lemma create_recurring_ok:
  assumes "statusCode (fst (caught (create_recurring h e b s))) = 200"
  shows "\<exists>r p. recurringPayments (snd (caught (create_recurring h e b s))) =
                 recurringPayments s @ [r] \<and>
               payments (snd (caught (create_recurring h e b s))) = payments s @ [p] \<and>
               r_status r = ''active'' \<and> p_status p = ''pending'' \<and>
               start_date r = get_field b ''start_date'' \<and>
               due_date p = get_field b ''start_date'' \<and> first_payment_of r p \<and>
               next_payment_date_of h (get_field b ''start_date'') = Inr (next_payment_date r)"
  using assms
  by (auto simp add: create_recurring_def caught_def Let_def ok_def bad_request_def
      first_payment_of_def next_payment_date_of_def split: option.splits sum.splits if_splits)

text \<open>Whatever the answer, \<^verbatim>\<open>/create-recurring\<close> appends an agreement and its first payment
  record, or neither.  A request that is not answered with a success appends neither,
  unless the answer is the 500 of the message that could not be made (line 187): both
  have been appended then.\<close>

lemma create_recurring_both_or_neither:
  "recurringPayments (snd (caught (create_recurring h e b s))) = recurringPayments s \<and>
   payments (snd (caught (create_recurring h e b s))) = payments s \<or>
   (\<exists>r p. recurringPayments (snd (caught (create_recurring h e b s))) =
            recurringPayments s @ [r] \<and>
          payments (snd (caught (create_recurring h e b s))) = payments s @ [p] \<and>
          first_payment_of r p)"
  by (auto simp add: create_recurring_def caught_def Let_def ok_def bad_request_def
      first_payment_of_def split: option.splits sum.splits if_splits)

lemma create_recurring_failed:
  assumes "statusCode (fst (caught (create_recurring h e b s))) \<noteq> 200"
    and "ToString h (js_or (get_field b ''amount'') (JNum MONTHLY_AMOUNT)) \<noteq> Inl TypeError"
  shows "recurringPayments (snd (caught (create_recurring h e b s))) = recurringPayments s \<and>
         payments (snd (caught (create_recurring h e b s))) = payments s"
  using assms
  by (auto simp add: create_recurring_def caught_def Let_def ok_def bad_request_def
      dest: ToString_error split: option.splits sum.splits if_splits)

lemmas date_value_defs =
  nextPaymentDate_def advance_month_def new_Date_def Date_parse_def valid_date_def
  days_in_month_def DaysInYear_def TimeClip_def MakeDate_def MakeDay_def DayFromYear_def
  month_start_def msPerDay_def setMonth_def getMonth_def MonthFromTime_def DayWithinYear_def
  Day_def YearFromTime_def YearFromDay_def InLeapYear_def DateFromTime_def TimeWithinDay_def
  digit_val_def year_search.simps

section \<open>The claims\<close>

text \<open>
  C1.  The month advance of the handler does not clamp to the end of the target month.
  From the start date 2024-01-31 the computed \<^verbatim>\<open>next_payment_date\<close> is 2024-03-02, and
  from 2023-01-31 it is 2023-03-03, whatever the engine; the specification's advance gives
  2024-02-29 and 2023-02-28.  The last part is the same computation through the handler:
  the agreement that \<^verbatim>\<open>/create-recurring\<close> stores for the start date 2024-01-31 has
  \<^verbatim>\<open>next_payment_date\<close> 2024-03-02.
\<close>

theorem next_payment_date_overflows:
  "next_payment_date_of h (JStr ''2024-01-31'') = Inr ''2024-03-02'' \<and>
   next_payment_date_of h (JStr ''2023-01-31'') = Inr ''2023-03-03'' \<and>
   iso_date (spec_advance (2024, 1, 31)) = ''2024-02-29'' \<and>
   iso_date (spec_advance (2023, 1, 31)) = ''2023-02-28'' \<and>
   map next_payment_date
     (recurringPayments
        (snd (handler h
               (post ''/create-recurring''
                  (JObj [(''customer_id'', JNum 1), (''payment_method_id'', JNum 2),
                         (''start_date'', JStr ''2024-01-31'')]) 0)
               init))) = [''2024-03-02'']"
  by (simp add: handler_defs date_defs spec_advance_def iso_date_def)

text \<open>
  C2.  \<^verbatim>\<open>/add-credit-card\<close> checks neither the length nor the Luhn sum nor the expiry of
  a card.  By the specification's rule the numbers 1234 and 4532015112830367 are invalid
  and 4532015112830366 is valid; the handler, on 2 November 2024, answers both invalid
  numbers, with an expiry of 01/2000, with a success (200) and stores a payment method for
  each.
\<close>

theorem add_card_stores_unchecked_number:
  "\<not> spec_card_number_valid ''1234'' \<and>
   \<not> spec_card_number_valid ''4532015112830367'' \<and>
   spec_card_number_valid ''4532015112830366'' \<and>
   handler h
     (post ''/add-credit-card''
        (JObj [(''customer_id'', JNum 1), (''card_number'', JStr ''1234''),
               (''card_holder_name'', JStr ''Dana''), (''expiry_month'', JStr ''01''),
               (''expiry_year'', JStr ''2000''), (''cvv'', JStr ''123'')]) 1730505600000)
     init =
   (\<lparr>statusCode = 200, rbody = CardAdded 1 (JStr ''1234'')\<rparr>,
    init\<lparr>paymentMethods :=
           [\<lparr>m_id = 1, m_customer_id = JNum 1, m_payment_type = ''credit_card'',
             card_number_last4 = JStr ''1234'', card_holder_name = JStr ''Dana'',
             card_expiry_month = JStr ''01'', card_expiry_year = JStr ''2000'',
             bank_code = JUndefined, branch_code = JUndefined, account_number = JUndefined,
             account_holder_name = JUndefined, is_default = True, is_active = True,
             m_created_at = ''2024-11-02T00:00:00.000Z''\<rparr>],
         idCounter := 2\<rparr>) \<and>
   handler h
     (post ''/add-credit-card''
        (JObj [(''customer_id'', JNum 1), (''card_number'', JStr ''4532015112830367''),
               (''card_holder_name'', JStr ''Dana''), (''expiry_month'', JStr ''01''),
               (''expiry_year'', JStr ''2000''), (''cvv'', JStr ''123'')]) 1730505600000)
     init =
   (\<lparr>statusCode = 200, rbody = CardAdded 1 (JStr ''0367'')\<rparr>,
    init\<lparr>paymentMethods :=
           [\<lparr>m_id = 1, m_customer_id = JNum 1, m_payment_type = ''credit_card'',
             card_number_last4 = JStr ''0367'', card_holder_name = JStr ''Dana'',
             card_expiry_month = JStr ''01'', card_expiry_year = JStr ''2000'',
             bank_code = JUndefined, branch_code = JUndefined, account_number = JUndefined,
             account_holder_name = JUndefined, is_default = True, is_active = True,
             m_created_at = ''2024-11-02T00:00:00.000Z''\<rparr>],
         idCounter := 2\<rparr>)"
  by (simp add: handler_defs date_defs spec_card_number_valid_def spec_digits_def
      List.map_filter_simps slice_last4_def)




text \<open>
  C4.  \<^verbatim>\<open>/create-recurring\<close> does make the agreement and its first payment record together,
  but the next due date of the agreement is not the start date advanced by one month when
  the following month lacks the day.  For the start date 2024-01-31, asked on 1 January
  2024 on the empty store, the request is answered with a success and the store holds
  exactly one agreement and exactly one payment record: the record is pending, due on
  2024-01-31, the first payment of the agreement; the agreement is active, and its
  \<^verbatim>\<open>next_payment_date\<close> is 2024-03-02, where the specification's advance of 2024-01-31 is
  2024-02-29.  (That the two are always appended together, or neither, and pair up in
  every reachable store is \<open>create_recurring_ok\<close>, \<open>create_recurring_both_or_neither\<close> and
  \<open>reachable_inv\<close> above.)
\<close>

theorem agreement_next_due_date_skips_month:
  "handler h (post ''/create-recurring'' (recurring_body (JNum 7) ''2024-01-31'') 1704067200000)
     init =
   (\<lparr>statusCode = 200,
      rbody = RecurringCreated 1 (JNum 3500)
                ''Recurring payment of 3500 ILS created successfully''\<rparr>,
    init\<lparr>recurringPayments :=
           [\<lparr>r_id = 1, r_customer_id = JNum 7, r_payment_method_id = JNum 1,
             r_amount = JNum 3500, r_currency = ''ILS'', frequency = JStr ''monthly'',
             start_date = JStr ''2024-01-31'', end_date = JNull,
             next_payment_date = ''2024-03-02'', r_status = ''active'',
             r_created_at = ''2024-01-01T00:00:00.000Z''\<rparr>],
         payments :=
           [\<lparr>p_id = 2, p_customer_id = JNum 7, p_payment_method_id = JNum 1,
             p_amount = JNum 3500, p_currency = ''ILS'', p_payment_type = ''recurring'',
             p_status = ''pending'', due_date = JStr ''2024-01-31'',
             description = MonthlyPaymentLabel 1709337600000,
             p_created_at = ''2024-01-01T00:00:00.000Z''\<rparr>],
         idCounter := 3\<rparr>) \<and>
   civil 1709337600000 = (2024, 3, 2) \<and>
   spec_advance (2024, 1, 31) = (2024, 2, 29) \<and>
   iso_date (spec_advance (2024, 1, 31)) = ''2024-02-29''"
  by (simp add: handler_defs example_defs date_defs spec_advance_def iso_date_def civil_def
      Number_toString_def show_int_def)

text \<open>
  C5 (as amended).  A \<^verbatim>\<open>/payment-history\<close> request with a customer id never changes the
  store.  With a positive number \<open>k\<close> as limit it is answered with a success and the first
  \<open>k\<close> of the customer's records, so at most \<open>k\<close>; with no limit (or 0, or any other falsy
  limit) with a success and the first 12.  The order is that of the \<^verbatim>\<open>payments\<close> array, in
  which the records were stored; in a reachable store that is the order of creation (ids
  increasing): oldest first.  A limit that is an object with a property \<^verbatim>\<open>toString\<close> of its
  own cannot be converted to a number, and the request is answered with a 500.  In general
  the answer is that 500, exactly when the conversion of the limit throws, or else a
  success with some first part of the customer's records, oldest first; a customer without
  records then gets the empty sequence, as a success.
\<close>

theorem payment_history_is_oldest_first:
  assumes "posts e ''/payment-history'' b" and "truthy (get_field b ''customer_id'')"
  shows "snd (handler h e s) = s \<and>
         (\<forall>k. get_field b ''limit'' = JNum k \<and> 0 < k \<longrightarrow>
              handler h e s =
                (\<lparr>statusCode = 200,
                   rbody = PaymentHistory
                             (take (nat k) (records_of (get_field b ''customer_id'') s))\<rparr>, s) \<and>
              int (length (take (nat k) (records_of (get_field b ''customer_id'') s))) \<le> k) \<and>
         (\<not> truthy (get_field b ''limit'') \<longrightarrow>
              handler h e s =
                (\<lparr>statusCode = 200,
                   rbody = PaymentHistory
                             (take 12 (records_of (get_field b ''customer_id'') s))\<rparr>, s) \<and>
              length (take 12 (records_of (get_field b ''customer_id'') s)) \<le> 12) \<and>
         (\<forall>kvs. get_field b ''limit'' = JObj kvs \<and> has_own kvs ''toString'' \<longrightarrow>
              handler h e s = (\<lparr>statusCode = 500, rbody = ServerError TypeError\<rparr>, s)) \<and>
         (ToIntegerOrInfinity h (js_or (get_field b ''limit'') (JNum 12)) = Inl TypeError \<and>
          handler h e s = (\<lparr>statusCode = 500, rbody = ServerError TypeError\<rparr>, s) \<or>
          (\<exists>i hs n. ToIntegerOrInfinity h (js_or (get_field b ''limit'') (JNum 12)) = Inr i \<and>
             handler h e s = (\<lparr>statusCode = 200, rbody = PaymentHistory hs\<rparr>, s) \<and>
             hs = take n (records_of (get_field b ''customer_id'') s) \<and>
             (records_of (get_field b ''customer_id'') s = [] \<longrightarrow> hs = []) \<and>
             (reachable h s \<longrightarrow> sorted_wrt (<) (map p_id hs))))"
proof -
  define own where "own = records_of (get_field b ''customer_id'') s"
  define l where "l = js_or (get_field b ''limit'') (JNum 12)"
  have d: "destructurable b"
    using assms(2) by (rule truthy_field_destructurable)
  have l_def': "l \<noteq> JUndefined"
    by (auto simp add: l_def js_or_def)
  have hh: "handler h e s =
      caught (case slice_0 h own l of
                Inl err \<Rightarrow> (Inl err, s)
              | Inr history \<Rightarrow> (ok (PaymentHistory history), s))"
    using assms d
    by (simp add: handler_posts [OF assms(1)] route_payment_history [OF assms(1)]
        payment_history_def Let_def own_def l_def records_of_def)
  have st: "snd (handler h e s) = s"
    unfolding hh by (simp add: caught_def split: sum.splits)
  have k: "handler h e s = (\<lparr>statusCode = 200, rbody = PaymentHistory (take (nat k) own)\<rparr>, s) \<and>
      int (length (take (nat k) own)) \<le> k"
    if "get_field b ''limit'' = JNum k" "0 < k" for k
    using that unfolding hh by (simp add: l_def js_or_def slice_0_positive caught_def ok_def)
  have f: "handler h e s = (\<lparr>statusCode = 200, rbody = PaymentHistory (take 12 own)\<rparr>, s) \<and>
      length (take 12 own) \<le> 12"
    if "\<not> truthy (get_field b ''limit'')"
    using that slice_0_positive [of 12 h own] unfolding hh
    by (simp add: l_def js_or_def caught_def ok_def)
  have t: "handler h e s = (\<lparr>statusCode = 500, rbody = ServerError TypeError\<rparr>, s)"
    if "get_field b ''limit'' = JObj kvs" "has_own kvs ''toString''" for kvs
  proof -
    have "l = JObj kvs"
      using that(1) by (simp add: l_def js_or_def)
    then have "slice_0 h own l = Inl TypeError"
      using ToIntegerOrInfinity_own_toString [OF that(2), of h] by (simp add: slice_0_error)
    then show ?thesis
      unfolding hh by (simp add: caught_def)
  qed
  have g: "ToIntegerOrInfinity h l = Inl TypeError \<and>
      handler h e s = (\<lparr>statusCode = 500, rbody = ServerError TypeError\<rparr>, s) \<or>
      (\<exists>i hs n. ToIntegerOrInfinity h l = Inr i \<and>
         handler h e s = (\<lparr>statusCode = 200, rbody = PaymentHistory hs\<rparr>, s) \<and>
         hs = take n own \<and> (own = [] \<longrightarrow> hs = []) \<and>
         (reachable h s \<longrightarrow> sorted_wrt (<) (map p_id hs)))"
  proof (cases "slice_0 h own l")
    case (Inl err)
    then have "ToIntegerOrInfinity h l = Inl err"
      by (simp add: slice_0_error)
    moreover from this have "err = TypeError"
      by (rule ToIntegerOrInfinity_error)
    ultimately show ?thesis
      unfolding hh using Inl by (simp add: caught_def)
  next
    case (Inr hs)
    then obtain i where i: "ToIntegerOrInfinity h l = Inr i"
      using l_def' by (auto simp add: slice_0_def split: sum.splits)
    obtain n where n: "hs = take n own"
      using slice_0_take [OF Inr] by blast
    have o: "sorted_wrt (<) (map p_id hs)" if "reachable h s"
    proof -
      have "sorted_wrt (<) (map p_id (payments s))"
        using reachable_inv [OF that] by (simp add: store_inv_def)
      then have "sorted_wrt (<) (map p_id own)"
        unfolding own_def records_of_def by (rule sorted_ids_filter)
      then show ?thesis
        unfolding n by (simp add: take_map [symmetric] sorted_wrt_take)
    qed
    have "handler h e s = (\<lparr>statusCode = 200, rbody = PaymentHistory hs\<rparr>, s)"
      unfolding hh using Inr by (simp add: caught_def ok_def)
    with i n o show ?thesis by auto
  qed
  show ?thesis
    using st k f t g unfolding own_def [symmetric] l_def [symmetric] by blast
qed

theorem payment_history_is_oldest_first_witness:
  "posts (post ''/payment-history'' (history_body (JNum 7) (JNum 1)) 0) ''/payment-history''
     (history_body (JNum 7) (JNum 1)) \<and>
   truthy (get_field (history_body (JNum 7) (JNum 1)) ''customer_id'') \<and>
   get_field (history_body (JNum 7) (JNum 1)) ''limit'' = JNum 1 \<and>
   reachable strict_host
     (run strict_host init
        [post ''/create-recurring'' (recurring_body (JNum 7) ''2024-01-15'') 0,
         post ''/create-recurring'' (recurring_body (JNum 7) ''2024-02-15'') 0]) \<and>
   (\<exists>hs. handler strict_host (post ''/payment-history'' (history_body (JNum 7) (JNum 1)) 0)
            (run strict_host init
               [post ''/create-recurring'' (recurring_body (JNum 7) ''2024-01-15'') 0,
                post ''/create-recurring'' (recurring_body (JNum 7) ''2024-02-15'') 0]) =
          (\<lparr>statusCode = 200, rbody = PaymentHistory hs\<rparr>,
           run strict_host init
             [post ''/create-recurring'' (recurring_body (JNum 7) ''2024-01-15'') 0,
              post ''/create-recurring'' (recurring_body (JNum 7) ''2024-02-15'') 0]) \<and>
        int (length hs) \<le> 1 \<and> sorted_wrt (<) (map p_id hs)) \<and>
   get_field (history_body (JNum 7) (JObj [(''toString'', JNum 1)])) ''limit'' =
     JObj [(''toString'', JNum 1)] \<and>
   has_own [(''toString'', JNum 1)] ''toString'' \<and>
   handler strict_host
     (post ''/payment-history'' (history_body (JNum 7) (JObj [(''toString'', JNum 1)])) 0)
     init =
   (\<lparr>statusCode = 500, rbody = ServerError TypeError\<rparr>, init)"
proof -
  define b where "b = history_body (JNum 7) (JNum 1)"
  define e where "e = post ''/payment-history'' b 0"
  define b2 where "b2 = history_body (JNum 7) (JObj [(''toString'', JNum 1)])"
  define e2 where "e2 = post ''/payment-history'' b2 0"
  define s where "s = run strict_host init
      [post ''/create-recurring'' (recurring_body (JNum 7) ''2024-01-15'') 0,
       post ''/create-recurring'' (recurring_body (JNum 7) ''2024-02-15'') 0]"
  have p: "posts e ''/payment-history'' b" and p2: "posts e2 ''/payment-history'' b2"
    unfolding e_def e2_def by (rule posts_post)+
  have c: "truthy (get_field b ''customer_id'')" and l: "get_field b ''limit'' = JNum 1"
    and c2: "truthy (get_field b2 ''customer_id'')"
    and l2: "get_field b2 ''limit'' = JObj [(''toString'', JNum 1)]"
    by (simp_all add: b_def b2_def example_defs)
  have own: "has_own [(''toString'', JNum 1)] ''toString''"
    by (simp add: has_own_def)
  have r: "reachable strict_host s"
    unfolding s_def by (rule reachable_example)
  note t1 = payment_history_is_oldest_first [OF p c, of strict_host s]
  note t2 = payment_history_is_oldest_first [OF p2 c2, of strict_host init]
  have one: "\<exists>hs. handler strict_host e s = (\<lparr>statusCode = 200, rbody = PaymentHistory hs\<rparr>, s) \<and>
      int (length hs) \<le> 1 \<and> sorted_wrt (<) (map p_id hs)"
    using t1 l r by fastforce
  have two: "handler strict_host e2 init = (\<lparr>statusCode = 500, rbody = ServerError TypeError\<rparr>, init)"
    using t2 l2 own by blast
  show ?thesis
    unfolding b_def [symmetric] e_def [symmetric] b2_def [symmetric] e2_def [symmetric]
      s_def [symmetric]
    using p c l r one l2 own two by (intro conjI) assumption+
qed

text \<open>The claim C5 as first stated fails on a store with two payment records of customer
  7, the record with id 2 made a month before the record with id 4: the limit 1 returns
  the older record, the limit 2 returns the two oldest first, and the limit 0 returns two
  records.\<close>

theorem history_is_not_most_recent_first_counterexample:
  "map (\<lambda>p. (p_id p, p_created_at p))
     (payments
        (run strict_host init
           [post ''/create-recurring'' (recurring_body (JNum 7) ''2024-01-15'') 1704067200000,
            post ''/create-recurring'' (recurring_body (JNum 7) ''2024-02-15'')
              1706745600000])) =
     [(2, ''2024-01-01T00:00:00.000Z''), (4, ''2024-02-01T00:00:00.000Z'')] \<and>
   history_ids
     (fst (handler strict_host (post ''/payment-history'' (history_body (JNum 7) (JNum 1)) 0)
             (run strict_host init
                [post ''/create-recurring'' (recurring_body (JNum 7) ''2024-01-15'')
                   1704067200000,
                 post ''/create-recurring'' (recurring_body (JNum 7) ''2024-02-15'')
                   1706745600000]))) = [2] \<and>
   history_ids
     (fst (handler strict_host (post ''/payment-history'' (history_body (JNum 7) (JNum 2)) 0)
             (run strict_host init
                [post ''/create-recurring'' (recurring_body (JNum 7) ''2024-01-15'')
                   1704067200000,
                 post ''/create-recurring'' (recurring_body (JNum 7) ''2024-02-15'')
                   1706745600000]))) = [2, 4] \<and>
   history_ids
     (fst (handler strict_host (post ''/payment-history'' (history_body (JNum 7) (JNum 0)) 0)
             (run strict_host init
                [post ''/create-recurring'' (recurring_body (JNum 7) ''2024-01-15'')
                   1704067200000,
                 post ''/create-recurring'' (recurring_body (JNum 7) ''2024-02-15'')
                   1706745600000]))) = [2, 4]"
proof -
  define s where "s = run strict_host init
      [post ''/create-recurring'' (recurring_body (JNum 7) ''2024-01-15'') 1704067200000,
       post ''/create-recurring'' (recurring_body (JNum 7) ''2024-02-15'') 1706745600000]"
  have made: "map (\<lambda>p. (p_id p, p_customer_id p, p_created_at p)) (payments s) =
      [(2, JNum 7, ''2024-01-01T00:00:00.000Z''), (4, JNum 7, ''2024-02-01T00:00:00.000Z'')]"
    by (simp add: s_def handler_defs example_defs date_defs)
  then obtain p q where pq: "payments s = [p, q]" "p_id p = 2" "p_id q = 4"
    "p_customer_id p = JNum 7" "p_customer_id q = JNum 7"
    "p_created_at p = ''2024-01-01T00:00:00.000Z''"
    "p_created_at q = ''2024-02-01T00:00:00.000Z''"
    by auto
  have h: "history_ids (fst (handler strict_host
      (post ''/payment-history'' (history_body (JNum 7) (JNum k)) 0) s)) =
      (case slice_0 strict_host [p, q] (js_or (JNum k) (JNum 12)) of
         Inl err \<Rightarrow> [] | Inr hs \<Rightarrow> map p_id hs)" for k
    by (simp add: handler_def route_def post_def payment_history_def history_body_def
        destructurable_def ok_def history_ids_def pq Let_def split: sum.splits)
  show ?thesis
    unfolding s_def [symmetric]
    by (simp add: h pq slice_0_def js_or_def ToIntegerOrInfinity_def)
qed

text \<open>
  C6 (as amended).  Every stored payment method has the default flag set: in every
  reachable store each payment method is marked default, and a successful
  \<^verbatim>\<open>/add-credit-card\<close> or \<^verbatim>\<open>/add-standing-order\<close> appends one method marked default and
  leaves the methods stored before as they are, so that after a second method of the same
  kind for the same customer both are marked default.
\<close>

theorem every_stored_method_is_default:
  "(reachable h s \<and> m \<in> set (paymentMethods s) \<longrightarrow> is_default m) \<and>
   ((posts e ''/add-credit-card'' b \<or> posts e ''/add-standing-order'' b) \<and>
    statusCode (fst (handler h e s)) = 200 \<longrightarrow>
      (\<exists>m. is_default m \<and> m_customer_id m = get_field b ''customer_id'' \<and>
           paymentMethods (snd (handler h e s)) = paymentMethods s @ [m]))"
proof -
  have a: "is_default m" if "reachable h s" "m \<in> set (paymentMethods s)"
    using reachable_methods_ok [OF that] by (simp add: method_ok_def)
  have b: "\<exists>m. is_default m \<and> m_customer_id m = get_field b ''customer_id'' \<and>
             paymentMethods (snd (handler h e s)) = paymentMethods s @ [m]"
    if "posts e ''/add-credit-card'' b" "statusCode (fst (handler h e s)) = 200"
    using that add_credit_card_ok [of e b s]
    by (simp add: handler_posts route_add_credit_card)
  have c: "\<exists>m. is_default m \<and> m_customer_id m = get_field b ''customer_id'' \<and>
             paymentMethods (snd (handler h e s)) = paymentMethods s @ [m]"
    if "posts e ''/add-standing-order'' b" "statusCode (fst (handler h e s)) = 200"
    using that add_standing_order_ok [of e b s]
    by (auto simp add: handler_posts route_add_standing_order)
  show ?thesis
    using a b c by blast
qed

theorem every_stored_method_is_default_witness:
  "reachable strict_host
     (run strict_host init [post ''/add-credit-card'' (card_body (JNum 1) ''4532015112830366'') 0]) \<and>
   hd (paymentMethods
         (run strict_host init
            [post ''/add-credit-card'' (card_body (JNum 1) ''4532015112830366'') 0]))
     \<in> set (paymentMethods
         (run strict_host init
            [post ''/add-credit-card'' (card_body (JNum 1) ''4532015112830366'') 0])) \<and>
   is_default
     (hd (paymentMethods
            (run strict_host init
               [post ''/add-credit-card'' (card_body (JNum 1) ''4532015112830366'') 0]))) \<and>
   posts (post ''/add-credit-card'' (card_body (JNum 1) ''5555555555554444'') 0)
     ''/add-credit-card'' (card_body (JNum 1) ''5555555555554444'') \<and>
   statusCode
     (fst (handler strict_host
             (post ''/add-credit-card'' (card_body (JNum 1) ''5555555555554444'') 0)
             (run strict_host init
                [post ''/add-credit-card'' (card_body (JNum 1) ''4532015112830366'') 0]))) = 200 \<and>
   (\<exists>m. is_default m \<and>
        m_customer_id m = get_field (card_body (JNum 1) ''5555555555554444'') ''customer_id'' \<and>
        paymentMethods
          (snd (handler strict_host
                  (post ''/add-credit-card'' (card_body (JNum 1) ''5555555555554444'') 0)
                  (run strict_host init
                     [post ''/add-credit-card'' (card_body (JNum 1) ''4532015112830366'') 0]))) =
        paymentMethods
          (run strict_host init
             [post ''/add-credit-card'' (card_body (JNum 1) ''4532015112830366'') 0]) @ [m])"
proof -
  define s where
    "s = run strict_host init [post ''/add-credit-card'' (card_body (JNum 1) ''4532015112830366'') 0]"
  define e where "e = post ''/add-credit-card'' (card_body (JNum 1) ''5555555555554444'') 0"
  have r: "reachable strict_host s"
    unfolding s_def by (rule reachable_example)
  have m: "hd (paymentMethods s) \<in> set (paymentMethods s)"
    by (simp add: s_def handler_defs example_defs)
  have p: "posts e ''/add-credit-card'' (card_body (JNum 1) ''5555555555554444'')"
    unfolding e_def by (rule posts_post)
  have ok: "statusCode (fst (handler strict_host e s)) = 200"
    by (simp add: s_def e_def handler_defs example_defs)
  show ?thesis
    unfolding s_def [symmetric] e_def [symmetric]
    using r m p ok
      every_stored_method_is_default [of strict_host s "hd (paymentMethods s)" e
        "card_body (JNum 1) ''5555555555554444''"]
    by blast
qed

text \<open>The claim C6 as first stated fails after two cards for customer 1: two credit-card
  methods of that customer are marked default.\<close>

theorem two_defaults_counterexample:
  "reachable strict_host
     (run strict_host init
        [post ''/add-credit-card''
           (JObj [(''customer_id'', JNum 1), (''card_number'', JStr ''4532015112830366''),
                  (''card_holder_name'', JStr ''Dana''), (''expiry_month'', JStr ''12''),
                  (''expiry_year'', JStr ''2030'')]) 0,
         post ''/add-credit-card''
           (JObj [(''customer_id'', JNum 1), (''card_number'', JStr ''5555555555554444''),
                  (''card_holder_name'', JStr ''Dana''), (''expiry_month'', JStr ''11''),
                  (''expiry_year'', JStr ''2031'')]) 0]) \<and>
   map (\<lambda>m. (m_customer_id m, m_payment_type m, card_number_last4 m, is_default m))
     (paymentMethods
        (run strict_host init
           [post ''/add-credit-card''
              (JObj [(''customer_id'', JNum 1), (''card_number'', JStr ''4532015112830366''),
                     (''card_holder_name'', JStr ''Dana''), (''expiry_month'', JStr ''12''),
                     (''expiry_year'', JStr ''2030'')]) 0,
            post ''/add-credit-card''
              (JObj [(''customer_id'', JNum 1), (''card_number'', JStr ''5555555555554444''),
                     (''card_holder_name'', JStr ''Dana''), (''expiry_month'', JStr ''11''),
                     (''expiry_year'', JStr ''2031'')]) 0])) =
   [(JNum 1, ''credit_card'', JStr ''0366'', True), (JNum 1, ''credit_card'', JStr ''4444'', True)]"
proof (rule conjI)
  show "reachable strict_host (run strict_host init es)" for es
    by (rule reachable_run) (rule reachable_init)
qed (simp add: handler_defs date_defs slice_last4_def)

text \<open>
  C7.  Cancelling is idempotent.  For every POST to \<^verbatim>\<open>/cancel-recurring\<close>, handling the
  request a second time gives the same response and leaves the store as the first time
  left it.  When \<^verbatim>\<open>recurring_id\<close> is given the response is the success (200); the agreement
  that \<^verbatim>\<open>find\<close> returns for the id afterwards is cancelled; and when it was cancelled
  already the store does not change at all.
\<close>

theorem cancel_twice_is_cancel_once:
  assumes "posts e ''/cancel-recurring'' b"
  shows "handler h e (snd (handler h e s)) = handler h e s \<and>
         (truthy (get_field b ''recurring_id'') \<longrightarrow>
            fst (handler h e s) = \<lparr>statusCode = 200, rbody = RecurringCancelled\<rparr> \<and>
            (\<forall>r. find (\<lambda>r. strict_eq (JNum (r_id r)) (get_field b ''recurring_id''))
                   (recurringPayments (snd (handler h e s))) = Some r \<longrightarrow>
                 r_status r = ''cancelled'') \<and>
            (\<forall>r. find (\<lambda>r. strict_eq (JNum (r_id r)) (get_field b ''recurring_id''))
                   (recurringPayments s) = Some r \<and> r_status r = ''cancelled'' \<longrightarrow>
                 snd (handler h e s) = s))"
proof -
  have h: "handler h e t = caught (cancel_recurring b t)" for t
    using assms by (simp add: handler_posts route_cancel_recurring)
  have twice: "caught (cancel_recurring b (snd (caught (cancel_recurring b s)))) =
      caught (cancel_recurring b s)"
    by (simp add: cancel_recurring_def caught_def Let_def bad_request_def ok_def
        cancel_found_twice)
  have rest: "truthy (get_field b ''recurring_id'') \<longrightarrow>
      fst (caught (cancel_recurring b s)) = \<lparr>statusCode = 200, rbody = RecurringCancelled\<rparr> \<and>
      (\<forall>r. find (\<lambda>r. strict_eq (JNum (r_id r)) (get_field b ''recurring_id''))
             (recurringPayments (snd (caught (cancel_recurring b s)))) = Some r \<longrightarrow>
           r_status r = ''cancelled'') \<and>
      (\<forall>r. find (\<lambda>r. strict_eq (JNum (r_id r)) (get_field b ''recurring_id''))
             (recurringPayments s) = Some r \<and> r_status r = ''cancelled'' \<longrightarrow>
           snd (caught (cancel_recurring b s)) = s)"
    by (auto simp add: cancel_recurring_def caught_def Let_def ok_def cancel_found_find
        cancel_found_cancelled truthy_field_destructurable)
  show ?thesis
    unfolding h using twice rest by simp
qed


theorem cancel_twice_is_cancel_once_witness:
  "posts (post ''/cancel-recurring'' (JObj [(''recurring_id'', JNum 1)]) 0) ''/cancel-recurring''
     (JObj [(''recurring_id'', JNum 1)]) \<and>
   truthy (get_field (JObj [(''recurring_id'', JNum 1)]) ''recurring_id'') \<and>
   (let e = post ''/cancel-recurring'' (JObj [(''recurring_id'', JNum 1)]) 0;
        s = run strict_host init
              [post ''/create-recurring''
                 (JObj [(''customer_id'', JNum 7), (''payment_method_id'', JNum 8),
                        (''start_date'', JStr ''2024-01-15'')]) 0]
    in handler strict_host e (snd (handler strict_host e s)) = handler strict_host e s \<and>
       fst (handler strict_host e s) = \<lparr>statusCode = 200, rbody = RecurringCancelled\<rparr> \<and>
       map r_status (recurringPayments s) = [''active''] \<and>
       map r_status (recurringPayments (snd (handler strict_host e s))) = [''cancelled''])"
proof -
  have p: "posts (post ''/cancel-recurring'' (JObj [(''recurring_id'', JNum 1)]) 0)
      ''/cancel-recurring'' (JObj [(''recurring_id'', JNum 1)])"
    by (rule posts_post)
  show ?thesis
    using p cancel_twice_is_cancel_once [OF p, of strict_host]
    by (simp add: handler_defs date_defs)
qed

text \<open>
  C8 (as amended).  \<^verbatim>\<open>/add-credit-card\<close> never looks the customer up.  A request whose
  five required fields are present, the card number a string, succeeds (200) and stores
  one payment method with the \<^verbatim>\<open>customer_id\<close> of the request, whatever customers are
  registered; the response and the stored methods are the same for every content of the
  customer registry; and the response is never a 404.
\<close>

theorem add_card_never_looks_up_customer:
  assumes "posts e ''/add-credit-card'' b"
  shows "(truthy (get_field b ''customer_id'') \<and> get_field b ''card_number'' = JStr n \<and>
          n \<noteq> [] \<and> truthy (get_field b ''card_holder_name'') \<and>
          truthy (get_field b ''expiry_month'') \<and> truthy (get_field b ''expiry_year'') \<longrightarrow>
            fst (handler h e s) =
              \<lparr>statusCode = 200, rbody = CardAdded (idCounter s) (JStr (slice_last4 n))\<rparr> \<and>
            (\<exists>m. m_customer_id m = get_field b ''customer_id'' \<and>
                 paymentMethods (snd (handler h e s)) = paymentMethods s @ [m])) \<and>
         fst (handler h e (s\<lparr>customers := cs\<rparr>)) = fst (handler h e s) \<and>
         paymentMethods (snd (handler h e (s\<lparr>customers := cs\<rparr>))) =
           paymentMethods (snd (handler h e s)) \<and>
         statusCode (fst (handler h e s)) \<noteq> 404"
proof -
  have h: "handler h e t = caught (add_credit_card e b t)" for t
    using assms by (simp add: handler_posts route_add_credit_card)
  have a: "truthy (get_field b ''customer_id'') \<and> get_field b ''card_number'' = JStr n \<and>
          n \<noteq> [] \<and> truthy (get_field b ''card_holder_name'') \<and>
          truthy (get_field b ''expiry_month'') \<and> truthy (get_field b ''expiry_year'') \<longrightarrow>
            fst (caught (add_credit_card e b s)) =
              \<lparr>statusCode = 200, rbody = CardAdded (idCounter s) (JStr (slice_last4 n))\<rparr> \<and>
            (\<exists>m. m_customer_id m = get_field b ''customer_id'' \<and>
                 paymentMethods (snd (caught (add_credit_card e b s))) = paymentMethods s @ [m])"
    by (auto simp add: add_credit_card_def caught_def Let_def ok_def
        dest: truthy_field_destructurable)
  have b: "fst (caught (add_credit_card e b (s\<lparr>customers := cs\<rparr>))) =
             fst (caught (add_credit_card e b s))"
    by (simp add: add_credit_card_def caught_def Let_def ok_def bad_request_def
        split: sum.splits)
  have c: "paymentMethods (snd (caught (add_credit_card e b (s\<lparr>customers := cs\<rparr>)))) =
             paymentMethods (snd (caught (add_credit_card e b s)))"
    by (simp add: add_credit_card_def caught_def Let_def ok_def bad_request_def
        split: sum.splits)
  have d: "statusCode (fst (caught (add_credit_card e b s))) \<noteq> 404"
    by (simp add: add_credit_card_def caught_def Let_def ok_def bad_request_def
        split: sum.splits)
  show ?thesis
    unfolding h using a b c d by blast
qed

theorem add_card_never_looks_up_customer_witness:
  "posts (post ''/add-credit-card'' (card_body (JNum 42) ''4532015112830366'') 0)
     ''/add-credit-card'' (card_body (JNum 42) ''4532015112830366'') \<and>
   truthy (get_field (card_body (JNum 42) ''4532015112830366'') ''customer_id'') \<and>
   get_field (card_body (JNum 42) ''4532015112830366'') ''card_number'' =
     JStr ''4532015112830366'' \<and>
   ''4532015112830366'' \<noteq> [] \<and>
   truthy (get_field (card_body (JNum 42) ''4532015112830366'') ''card_holder_name'') \<and>
   truthy (get_field (card_body (JNum 42) ''4532015112830366'') ''expiry_month'') \<and>
   truthy (get_field (card_body (JNum 42) ''4532015112830366'') ''expiry_year'') \<and>
   fst (handler strict_host
          (post ''/add-credit-card'' (card_body (JNum 42) ''4532015112830366'') 0) init) =
     \<lparr>statusCode = 200,
        rbody = CardAdded (idCounter init) (JStr (slice_last4 ''4532015112830366''))\<rparr> \<and>
   (\<exists>m. m_customer_id m = get_field (card_body (JNum 42) ''4532015112830366'') ''customer_id'' \<and>
        paymentMethods
          (snd (handler strict_host
                  (post ''/add-credit-card'' (card_body (JNum 42) ''4532015112830366'') 0) init)) =
        paymentMethods init @ [m])"
proof -
  define b where "b = card_body (JNum 42) ''4532015112830366''"
  define e where "e = post ''/add-credit-card'' b 0"
  have p: "posts e ''/add-credit-card'' b"
    unfolding e_def by (rule posts_post)
  have f: "truthy (get_field b ''customer_id'')"
    "get_field b ''card_number'' = JStr ''4532015112830366''"
    "''4532015112830366'' \<noteq> []"
    "truthy (get_field b ''card_holder_name'')"
    "truthy (get_field b ''expiry_month'')"
    "truthy (get_field b ''expiry_year'')"
    by (simp_all add: b_def example_defs)
  show ?thesis
    unfolding b_def [symmetric] e_def [symmetric]
    using p f add_card_never_looks_up_customer [OF p, of "''4532015112830366''" strict_host init]
    by blast
qed

text \<open>The claim C8 as first stated fails on the empty store: no customer is registered, and
  a card for customer 42 is added with success.\<close>

theorem add_card_without_customer_counterexample:
  "customers init = [] \<and>
   statusCode
     (fst (handler strict_host
             (post ''/add-credit-card'' (card_body (JNum 42) ''4532015112830366'') 0) init)) = 200 \<and>
   map (\<lambda>m. (m_id m, m_customer_id m, card_number_last4 m))
     (paymentMethods
        (snd (handler strict_host
                (post ''/add-credit-card'' (card_body (JNum 42) ''4532015112830366'') 0) init))) =
   [(1, JNum 42, JStr ''0366'')]"
  by (simp add: handler_defs example_defs slice_last4_def)



text \<open>
  C10.  Cancelling an id that no stored agreement has: the response is the same success
  (200, not an error), and the store (customers, payment methods, agreements, payment
  records and the counter) is unchanged.
\<close>

theorem cancel_unknown_id_changes_nothing:
  assumes "posts e ''/cancel-recurring'' b"
    and "truthy (get_field b ''recurring_id'')"
    and "find (\<lambda>r. strict_eq (JNum (r_id r)) (get_field b ''recurring_id''))
           (recurringPayments s) = None"
  shows "handler h e s = (\<lparr>statusCode = 200, rbody = RecurringCancelled\<rparr>, s)"
proof -
  have "destructurable b"
    using assms(2) by (rule truthy_field_destructurable)
  moreover have "cancel_found (get_field b ''recurring_id'') (recurringPayments s) =
      recurringPayments s"
    using assms(3) by (intro cancel_found_unknown) (simp add: find_None_iff)
  ultimately show ?thesis
    using assms(1,2)
    by (simp add: handler_posts route_cancel_recurring cancel_recurring_def caught_def
        Let_def ok_def)
qed

theorem cancel_unknown_id_changes_nothing_witness:
  "(let e = post ''/cancel-recurring'' (JObj [(''recurring_id'', JNum 99)]) 0;
        s = run strict_host init
              [post ''/create-recurring''
                 (JObj [(''customer_id'', JNum 7), (''payment_method_id'', JNum 8),
                        (''start_date'', JStr ''2024-01-15'')]) 0]
    in posts e ''/cancel-recurring'' (JObj [(''recurring_id'', JNum 99)]) \<and>
       truthy (get_field (JObj [(''recurring_id'', JNum 99)]) ''recurring_id'') \<and>
       map r_id (recurringPayments s) = [1] \<and>
       find (\<lambda>r. strict_eq (JNum (r_id r)) (get_field (JObj [(''recurring_id'', JNum 99)])
              ''recurring_id'')) (recurringPayments s) = None \<and>
       handler strict_host e s = (\<lparr>statusCode = 200, rbody = RecurringCancelled\<rparr>, s))"
proof -
  define e where "e = post ''/cancel-recurring'' (JObj [(''recurring_id'', JNum 99)]) 0"
  define s where "s = run strict_host init
      [post ''/create-recurring''
         (JObj [(''customer_id'', JNum 7), (''payment_method_id'', JNum 8),
                (''start_date'', JStr ''2024-01-15'')]) 0]"
  have p: "posts e ''/cancel-recurring'' (JObj [(''recurring_id'', JNum 99)])"
    unfolding e_def by (rule posts_post)
  have t: "truthy (get_field (JObj [(''recurring_id'', JNum 99)]) ''recurring_id'')"
    by simp
  have ids: "map r_id (recurringPayments s) = [1]"
    by (simp add: s_def handler_defs date_defs)
  have f: "find (\<lambda>r. strict_eq (JNum (r_id r)) (get_field (JObj [(''recurring_id'', JNum 99)])
      ''recurring_id'')) (recurringPayments s) = None"
    by (simp add: s_def handler_defs date_defs)
  show ?thesis
    unfolding Let_def e_def [symmetric] s_def [symmetric]
    using p t ids f cancel_unknown_id_changes_nothing [OF p t f, of strict_host]
    by (intro conjI)
qed

end
